theory Spec2Isabelle
  imports Main "HOL-Library.Sublist"
begin

section \<open>JavaScript strings and the regular expressions of the viewer\<close>

text \<open>
  The viewer (\<^verbatim>\<open>PptxViewer.js\<close>, in its current and in its older version) inspects
  slide XML and cell HTML with regular expressions and string replacement only. A
  JavaScript string is modelled as a \<^typ>\<open>string\<close>, one \<^typ>\<open>char\<close> per code unit
  (code units below 256: the line terminators \<^verbatim>\<open>U+2028\<close> and \<^verbatim>\<open>U+2029\<close> and the
  white space beyond Latin-1 have no counterpart here).

  Every regular expression of the two files is a plain sequence of literal text and of
  single character classes, some of them under \<^verbatim>\<open>*\<close>, \<^verbatim>\<open>*?\<close> or \<^verbatim>\<open>+\<close>. The type
  \<open>atom\<close> has one constructor for each of these, and \<open>rmatch\<close> is the backtracking
  matcher of ECMAScript on such sequences: a lazy star tries the rest of the pattern
  first and takes one more character only when that fails, a greedy star takes one more
  character first and gives it back only when the rest then fails.
\<close>

datatype cls =
    AnyChar         \<comment> \<open>\<^verbatim>\<open>[\s\S]\<close>\<close>
  | Dot             \<comment> \<open>\<^verbatim>\<open>.\<close>: anything but a line terminator\<close>
  | Except char      \<comment> \<open>\<^verbatim>\<open>[^c]\<close>\<close>

fun cls_ok :: "cls \<Rightarrow> char \<Rightarrow> bool" where
  "cls_ok AnyChar x = True"
| "cls_ok Dot x = (x \<noteq> CHR 0x0A \<and> x \<noteq> CHR 0x0D)"
| "cls_ok (Except c) x = (x \<noteq> c)"

datatype atom =
    Str string      \<comment> \<open>literal text\<close>
  | One cls         \<comment> \<open>one character of the class\<close>
  | Greedy cls      \<comment> \<open>\<^verbatim>\<open>c*\<close>\<close>
  | Lazy cls        \<comment> \<open>\<^verbatim>\<open>c*?\<close>\<close>

fun strip_prefix :: "string \<Rightarrow> string \<Rightarrow> string option" where
  "strip_prefix [] s = Some s"
| "strip_prefix (c # l) [] = None"
| "strip_prefix (c # l) (x # xs) = (if c = x then strip_prefix l xs else None)"

text \<open>
  A successful match returns the text consumed by each atom, in order, and the text
  left after the match. A capture group is then the piece (or the pieces) of the atoms
  it encloses.
\<close>

fun grow :: "char \<Rightarrow> (string list \<times> string) option \<Rightarrow> (string list \<times> string) option" where
  "grow x (Some (p # ps, t)) = Some ((x # p) # ps, t)"
| "grow x _ = None"

fun rmatch :: "atom list \<Rightarrow> string \<Rightarrow> (string list \<times> string) option" where
  "rmatch [] s = Some ([], s)"
| "rmatch (Str l # r) s =
     (case strip_prefix l s of
        None \<Rightarrow> None
      | Some t \<Rightarrow> map_option (\<lambda>(ps, u). (l # ps, u)) (rmatch r t))"
| "rmatch (One c # r) [] = None"
| "rmatch (One c # r) (x # xs) =
     (if cls_ok c x then map_option (\<lambda>(ps, u). ([x] # ps, u)) (rmatch r xs) else None)"
| "rmatch (Lazy c # r) s =
     (case rmatch r s of
        Some (ps, u) \<Rightarrow> Some ([] # ps, u)
      | None \<Rightarrow>
          (case s of
             [] \<Rightarrow> None
           | x # xs \<Rightarrow> if cls_ok c x then grow x (rmatch (Lazy c # r) xs) else None))"
| "rmatch (Greedy c # r) s =
     (case s of
        [] \<Rightarrow> map_option (\<lambda>(ps, u). ([] # ps, u)) (rmatch r [])
      | x # xs \<Rightarrow>
          (case (if cls_ok c x then grow x (rmatch (Greedy c # r) xs) else None) of
             Some m \<Rightarrow> Some m
           | None \<Rightarrow> map_option (\<lambda>(ps, u). ([] # ps, u)) (rmatch r s)))"

text \<open>
  \<^verbatim>\<open>s.match(re)\<close> without the \<^verbatim>\<open>g\<close> flag: the leftmost position at which the
  pattern matches. The result is the text before the match, the pieces, and the text
  after it; \<open>None\<close> is JavaScript's \<^verbatim>\<open>null\<close>.
\<close>

fun rsearch :: "atom list \<Rightarrow> string \<Rightarrow> (string \<times> string list \<times> string) option" where
  "rsearch re [] = map_option (\<lambda>(ps, u). ([], ps, u)) (rmatch re [])"
| "rsearch re (x # xs) =
     (case rmatch re (x # xs) of
        Some (ps, u) \<Rightarrow> Some ([], ps, u)
      | None \<Rightarrow> map_option (\<lambda>(b, ps, u). (x # b, ps, u)) (rsearch re xs))"

text \<open>
  \<^verbatim>\<open>s.match(re) || []\<close> with the \<^verbatim>\<open>g\<close> flag: every match, left to right, each search
  starting where the previous match ended (one character further after an empty
  match). The counter \<open>k\<close> is the number of characters still covered by the previous
  match.
\<close>

fun match_all_from :: "atom list \<Rightarrow> nat \<Rightarrow> string \<Rightarrow> string list" where
  "match_all_from re k [] =
     (if k = 0 then (case rmatch re [] of None \<Rightarrow> [] | Some (ps, u) \<Rightarrow> [concat ps]) else [])"
| "match_all_from re k (x # xs) =
     (if 0 < k then match_all_from re (k - 1) xs
      else case rmatch re (x # xs) of
             None \<Rightarrow> match_all_from re 0 xs
           | Some (ps, u) \<Rightarrow> concat ps # match_all_from re (length (concat ps) - 1) xs)"

definition match_all :: "atom list \<Rightarrow> string \<Rightarrow> string list" where
  "match_all re s = match_all_from re 0 s"

text \<open>
  \<^verbatim>\<open>s.replace(re, template)\<close> without the \<^verbatim>\<open>g\<close> flag replaces the leftmost match. The
  template is given as a function of the pieces of the match: \<^verbatim>\<open>''\<close> is
  \<open>\<lambda>_. []\<close>, and \<^verbatim>\<open>'$1'\<close> selects the piece of the captured atom.
\<close>

definition re_replace :: "atom list \<Rightarrow> (string list \<Rightarrow> string) \<Rightarrow> string \<Rightarrow> string" where
  "re_replace re template s =
     (case rsearch re s of
        None \<Rightarrow> s
      | Some (b, ps, u) \<Rightarrow> b @ template ps @ u)"

text \<open>
  \<^verbatim>\<open>s.replace(pattern, replacement)\<close> with a \<^emph>\<open>string\<close> pattern replaces the first
  occurrence of the pattern. The replacement string is still a template: ECMAScript's
  \<^verbatim>\<open>GetSubstitution\<close> expands \<^verbatim>\<open>$$\<close> to a dollar sign, \<^verbatim>\<open>$&\<close> to the matched
  text, \<^verbatim>\<open>$`\<close> to the text before the match and \<^verbatim>\<open>$'\<close> to the text after it; with
  a string pattern there are no captures, so every other use of \<^verbatim>\<open>$\<close> stays as it is.
\<close>

fun get_substitution :: "string \<Rightarrow> string \<Rightarrow> string \<Rightarrow> string \<Rightarrow> string" where
  "get_substitution matched pre post [] = []"
| "get_substitution matched pre post [c] = [c]"
| "get_substitution matched pre post (c # d # r) =
     (if c = CHR ''$'' \<and> d = CHR ''$'' then CHR ''$'' # get_substitution matched pre post r
      else if c = CHR ''$'' \<and> d = CHR ''&'' then matched @ get_substitution matched pre post r
      else if c = CHR ''$'' \<and> d = CHR 0x60 then pre @ get_substitution matched pre post r
      else if c = CHR ''$'' \<and> d = CHR 0x27 then post @ get_substitution matched pre post r
      else c # get_substitution matched pre post (d # r))"

definition str_replace :: "string \<Rightarrow> string \<Rightarrow> string \<Rightarrow> string" where
  "str_replace pattern replacement s =
     (case rsearch [Str pattern] s of
        None \<Rightarrow> s
      | Some (b, ps, u) \<Rightarrow> b @ get_substitution pattern b u replacement @ u)"

text \<open>\<^verbatim>\<open>s.includes(t)\<close>.\<close>

definition str_includes :: "string \<Rightarrow> string \<Rightarrow> bool" where
  "str_includes s t = (rsearch [Str t] s \<noteq> None)"

section \<open>The annotation classifier: \<^verbatim>\<open>extractAlertsFromHtml\<close>\<close>

text \<open>
  The three tiers are told apart by the literal opening tag of the span, nothing else.
\<close>

datatype tier = Advancement | SmallAlert | CriticalAlert

fun open_tag :: "tier \<Rightarrow> string" where
  \<open>open_tag Advancement = ''<span style="color: green;">''\<close>
| \<open>open_tag SmallAlert = ''<span style="color: orange;">''\<close>
| \<open>open_tag CriticalAlert = ''<span style="color: red; font-weight: bold;">''\<close>

definition close_tag :: string where
  "close_tag = ''</span>''"

text \<open>\<^verbatim>\<open>/<span style="color: green;">(.*?)<\/span>/\<close> and its two siblings.\<close>

definition span_re :: "tier \<Rightarrow> atom list" where
  "span_re t = [Str (open_tag t), Lazy Dot, Str close_tag]"

text \<open>
  For each match of the global expression, the source removes the first opening tag
  and then the first closing tag from the matched text, and pushes what is left:
  \<^verbatim>\<open>match.replace(/<span style="color: green;">/, '').replace(/<\/span>/, '')\<close>.
\<close>

definition strip_span :: "tier \<Rightarrow> string \<Rightarrow> string" where
  "strip_span t m =
     re_replace [Str close_tag] (\<lambda>_. []) (re_replace [Str (open_tag t)] (\<lambda>_. []) m)"

definition extract_tier :: "tier \<Rightarrow> string \<Rightarrow> string list" where
  "extract_tier t htmlContent = map (strip_span t) (match_all (span_re t) htmlContent)"

record alerts =
  advancements :: "string list"
  small_alerts :: "string list"
  critical_alerts :: "string list"

definition extractAlertsFromHtml :: "string \<Rightarrow> alerts" where
  "extractAlertsFromHtml htmlContent =
     \<lparr> advancements = extract_tier Advancement htmlContent,
       small_alerts = extract_tier SmallAlert htmlContent,
       critical_alerts = extract_tier CriticalAlert htmlContent \<rparr>"

section \<open>JavaScript numbers, arrays and objects\<close>

text \<open>
  A JavaScript number is an integer or \<^verbatim>\<open>NaN\<close> (\<open>None\<close>) here: the viewer only counts
  and adds the results of \<^verbatim>\<open>parseInt\<close>. The model is exact as long as the values stay
  below \<open>2^53\<close> in magnitude, where doubles represent every integer.
\<close>

type_synonym number = "int option"

definition js_add :: "number \<Rightarrow> number \<Rightarrow> number" where
  "js_add a b = (case a of None \<Rightarrow> None | Some x \<Rightarrow> (case b of None \<Rightarrow> None | Some y \<Rightarrow> Some (x + y)))"

definition js_lt :: "number \<Rightarrow> number \<Rightarrow> bool" where
  "js_lt a b = (case a of None \<Rightarrow> False | Some x \<Rightarrow> (case b of None \<Rightarrow> False | Some y \<Rightarrow> x < y))"

definition js_max :: "number \<Rightarrow> number \<Rightarrow> number" where
  "js_max a b = (case a of None \<Rightarrow> None | Some x \<Rightarrow> (case b of None \<Rightarrow> None | Some y \<Rightarrow> Some (max x y)))"

text \<open>\<^verbatim>\<open>xs[i]\<close>: \<^verbatim>\<open>undefined\<close> (\<open>None\<close>) for \<^verbatim>\<open>NaN\<close>, a negative index or one past the end.\<close>

definition js_index :: "'a list \<Rightarrow> number \<Rightarrow> nat option" where
  "js_index xs i =
     (case i of
        None \<Rightarrow> None
      | Some n \<Rightarrow> if 0 \<le> n \<and> nat n < length xs then Some (nat n) else None)"

definition js_nth :: "'a list \<Rightarrow> number \<Rightarrow> 'a option" where
  "js_nth xs i = map_option (\<lambda>n. xs ! n) (js_index xs i)"

text \<open>
  \<^verbatim>\<open>parseInt(s)\<close> without a radix: leading white space is skipped, then an optional
  sign, then an optional \<^verbatim>\<open>0x\<close> that selects base 16; the longest run of digits is
  read, and no digit at all gives \<^verbatim>\<open>NaN\<close>.
\<close>

definition is_ws :: "char \<Rightarrow> bool" where
  "is_ws c = (c = CHR 0x09 \<or> c = CHR 0x0A \<or> c = CHR 0x0B \<or> c = CHR 0x0C \<or> c = CHR 0x0D
              \<or> c = CHR 0x20 \<or> c = CHR 0xA0)"

definition digit_val :: "char \<Rightarrow> nat" where
  "digit_val c =
     (let n = of_char c :: nat in
      if 48 \<le> n \<and> n \<le> 57 then n - 48
      else if 97 \<le> n \<and> n \<le> 102 then n - 87
      else if 65 \<le> n \<and> n \<le> 70 then n - 55
      else 16)"

definition is_digit :: "nat \<Rightarrow> char \<Rightarrow> bool" where
  "is_digit radix c = (digit_val c < radix)"

definition digits_value :: "nat \<Rightarrow> string \<Rightarrow> nat" where
  "digits_value radix z = foldl (\<lambda>acc c. acc * radix + digit_val c) 0 z"

definition parseInt :: "string \<Rightarrow> number" where
  "parseInt s =
     (let s1 = dropWhile is_ws s;
          neg = (case s1 of [] \<Rightarrow> False | c # r \<Rightarrow> c = CHR ''-'');
          s2 = (case s1 of [] \<Rightarrow> [] | c # r \<Rightarrow> if c = CHR ''-'' \<or> c = CHR ''+'' then r else s1);
          hex = (case s2 of a # b # r \<Rightarrow> a = CHR ''0'' \<and> (b = CHR ''x'' \<or> b = CHR ''X'') | _ \<Rightarrow> False);
          s3 = (if hex then drop 2 s2 else s2);
          radix = (if hex then 16 else 10);
          z = takeWhile (is_digit radix) s3
      in if z = [] then None
         else if neg then Some (- int (digits_value radix z))
         else Some (int (digits_value radix z)))"

text \<open>
  A JavaScript object with string keys is the list of its own properties in the order
  in which \<^verbatim>\<open>Object.entries\<close> enumerates them: the keys that are array indices (the
  decimal numerals below \<open>2^32 - 1\<close>, without leading zero) first, in ascending numeric
  order, then the other keys in the order of their creation.

  Reading a property is modelled on the own properties only: project names that are
  also names of members inherited from \<^verbatim>\<open>Object.prototype\<close> (\<^verbatim>\<open>constructor\<close>,
  \<^verbatim>\<open>toString\<close>, ...) are outside the model. Assigning to \<^verbatim>\<open>__proto__\<close>, when it
  is not an own property, replaces the prototype and creates no own property.
\<close>

type_synonym 'v obj = "(string \<times> 'v) list"

definition is_array_index :: "string \<Rightarrow> bool" where
  "is_array_index k =
     (k \<noteq> [] \<and> list_all (is_digit 10) k \<and> (k = ''0'' \<or> take 1 k \<noteq> ''0'')
      \<and> digits_value 10 k < 4294967295)"

definition obj_get :: "string \<Rightarrow> 'v obj \<Rightarrow> 'v option" where
  "obj_get k ob = map_of ob k"

fun obj_overwrite :: "string \<Rightarrow> 'v \<Rightarrow> 'v obj \<Rightarrow> 'v obj" where
  "obj_overwrite k v [] = []"
| "obj_overwrite k v ((k', v') # r) =
     (if k' = k then (k, v) # r else (k', v') # obj_overwrite k v r)"

fun obj_insert_index :: "string \<Rightarrow> 'v \<Rightarrow> 'v obj \<Rightarrow> 'v obj" where
  "obj_insert_index k v [] = [(k, v)]"
| "obj_insert_index k v ((k', v') # r) =
     (if is_array_index k' \<and> digits_value 10 k' < digits_value 10 k
      then (k', v') # obj_insert_index k v r
      else (k, v) # (k', v') # r)"

definition obj_set :: "string \<Rightarrow> 'v \<Rightarrow> 'v obj \<Rightarrow> 'v obj" where
  "obj_set k v ob =
     (if map_of ob k \<noteq> None then obj_overwrite k v ob
      else if k = ''__proto__'' then ob
      else if is_array_index k then obj_insert_index k v ob
      else ob @ [(k, v)])"

definition obj_delete :: "string \<Rightarrow> 'v obj \<Rightarrow> 'v obj" where
  "obj_delete k ob = filter (\<lambda>(k', v'). k' \<noteq> k) ob"

section \<open>The data model\<close>

text \<open>
  The payload \<^verbatim>\<open>project_data\<close> received from the API. \<^verbatim>\<open>upcoming_events\<close> is
  optional because \<^verbatim>\<open>updateProjectData\<close> builds payloads without it.
\<close>

record project_info =
  information :: string
  alerts :: alerts

record metadata =
  title :: string

record project_data =
  activities :: "project_info obj"
  upcoming_events :: "string option"
  metadata :: metadata

text \<open>
  Cells, tables and slides as both versions of the viewer build them. The fields
  \<^verbatim>\<open>text\<close> of a cell and \<^verbatim>\<open>id\<close> of a slide are \<open>text'\<close> and \<open>id'\<close> here, and the
  \<^verbatim>\<open>title\<close> of a slide is \<open>slide_title\<close> (\<open>title\<close> is the field of the metadata). A property that an
  object literal of the source leaves out is \<open>None\<close> (\<^verbatim>\<open>html\<close>, only ever tested for
  truth, is \<open>False\<close> then); \<^verbatim>\<open>bgColor: null\<close> and a missing \<^verbatim>\<open>bgColor\<close> are both
  \<open>None\<close>. The style \<^verbatim>\<open>{}\<close> is \<open>no_style\<close>.
\<close>

record cell_style =
  bold :: "bool option"
  italic :: "bool option"
  underline :: "bool option"
  bgColor :: "string option"

definition no_style :: cell_style where
  "no_style = \<lparr> bold = None, italic = None, underline = None, bgColor = None \<rparr>"

record cell =
  text' :: string
  html :: bool
  rowSpan :: number
  colSpan :: number
  colIndex :: "number option"
  style :: "cell_style option"

record table =
  rows :: "cell list list"
  hasHeader :: bool
  headerStyle :: "cell_style option"
  colsCount :: number
  colWidths :: "number list option"

datatype content_item =
    TextItem string bool             \<comment> \<open>\<^verbatim>\<open>{type: 'text', content, isTitle}\<close>\<close>
  | TableItem "string list list" table   \<comment> \<open>\<^verbatim>\<open>{type: 'table', content, tableObject}\<close>\<close>

fun tableObject :: "content_item \<Rightarrow> table option" where
  "tableObject (TextItem c t) = None"
| "tableObject (TableItem c t) = Some t"

record slide =
  id' :: string
  slide_title :: string
  content :: string
  structuredContent :: "content_item list"
  tables :: "table list"
  images :: "string list"

section \<open>\<^verbatim>\<open>convertProjectDataToSlides\<close>\<close>

text \<open>
  The information of a project is shown with its alert phrases wrapped in the span of
  their tier: for each phrase of a tier, in order, the first occurrence of the phrase
  in the text built so far is replaced (\<^verbatim>\<open>informationHtml.replace(phrase, ...)\<close>, a
  replacement with a string pattern). A phrase that does not occur leaves the text as
  it is.
\<close>

definition inject_tier :: "tier \<Rightarrow> string list \<Rightarrow> string \<Rightarrow> string" where
  "inject_tier t phrases informationHtml =
     fold (\<lambda>phrase h. str_replace phrase (open_tag t @ phrase @ close_tag) h) phrases informationHtml"

definition informationHtml :: "project_info \<Rightarrow> string" where
  "informationHtml projectInfo =
     inject_tier CriticalAlert (critical_alerts (alerts projectInfo))
       (inject_tier SmallAlert (small_alerts (alerts projectInfo))
         (inject_tier Advancement (advancements (alerts projectInfo)) (information projectInfo)))"

definition default_title :: string where
  "default_title = ''Pr'' @ [CHR 0xE9] @ ''sentation sans titre''"

definition display_title :: "project_data \<Rightarrow> string" where
  "display_title projectData =
     (if title (metadata projectData) = [] then default_title else title (metadata projectData))"

definition header_style :: cell_style where
  "header_style = \<lparr> bold = Some True, italic = None, underline = None, bgColor = Some ''F0F0F0'' \<rparr>"

definition header_cell :: "string \<Rightarrow> cell" where
  "header_cell t =
     \<lparr> text' = t, html = False, rowSpan = Some 1, colSpan = Some 1, colIndex = None,
       style = Some header_style \<rparr>"

definition header_row :: "cell list" where
  "header_row =
     [header_cell ''Projet'', header_cell ''Information'',
      header_cell ([CHR 0xC9] @ ''v'' @ [CHR 0xE9] @ ''nements '' @ [CHR 0xE0] @ '' venir'')]"

definition name_cell :: "string \<Rightarrow> cell" where
  "name_cell projectName =
     \<lparr> text' = projectName, html = False, rowSpan = Some 1, colSpan = Some 1, colIndex = None,
       style = Some (no_style\<lparr> bold := Some True \<rparr>) \<rparr>"

definition info_cell :: "project_info \<Rightarrow> cell" where
  "info_cell projectInfo =
     \<lparr> text' = informationHtml projectInfo, html = True, rowSpan = Some 1, colSpan = Some 1,
       colIndex = None, style = None \<rparr>"

definition events_cell :: "project_data \<Rightarrow> cell" where
  "events_cell projectData =
     \<lparr> text' = (case upcoming_events projectData of None \<Rightarrow> [] | Some e \<Rightarrow> e), html = False,
       rowSpan = Some (int (length (activities projectData))), colSpan = Some 1, colIndex = None,
       style = Some (no_style\<lparr> bgColor := Some ''F5F5F5'' \<rparr>) \<rparr>"

text \<open>The body of the \<^verbatim>\<open>forEach\<close> over \<^verbatim>\<open>Object.entries(projectData.activities)\<close>.\<close>

definition projectRow :: "project_data \<Rightarrow> nat \<Rightarrow> string \<times> project_info \<Rightarrow> cell list" where
  "projectRow projectData index entry =
     [name_cell (fst entry), info_cell (snd entry)]
     @ (if index = 0 then [events_cell projectData] else [])"

definition tableRows :: "project_data \<Rightarrow> cell list list" where
  "tableRows projectData =
     header_row # map (\<lambda>(index, entry). projectRow projectData index entry)
                      (enumerate 0 (activities projectData))"

definition project_table :: "project_data \<Rightarrow> table" where
  "project_table projectData =
     \<lparr> rows = tableRows projectData, hasHeader = True, headerStyle = Some header_style,
       colsCount = Some 3, colWidths = Some [Some 150, Some 450, Some 250] \<rparr>"

definition mainSlide :: "project_data \<Rightarrow> slide" where
  "mainSlide projectData =
     (let has_activities = (activities projectData \<noteq> []) in
      \<lparr> id' = ''slide-1'',
        slide_title = display_title projectData,
        content = [],
        structuredContent =
          TextItem (display_title projectData) True
          # (if has_activities
             then [TableItem (map (map text') (tableRows projectData)) (project_table projectData)]
             else []),
        tables = (if has_activities then [project_table projectData] else []),
        images = [] \<rparr>)"

definition convertProjectDataToSlides :: "project_data \<Rightarrow> slide list" where
  "convertProjectDataToSlides projectData = [mainSlide projectData]"

section \<open>\<^verbatim>\<open>handleStructuredContentEdit\<close>\<close>

text \<open>
  The state of the viewer is the array of presentations and the index of the current
  one; the slides are rebuilt from \<^verbatim>\<open>project_data\<close> on every edit and dropped after
  it. An edit event carries the coordinates as the \<^verbatim>\<open>data-*\<close> attributes of the
  edited element, read with \<^verbatim>\<open>parseInt\<close> (\<open>None\<close> is \<^verbatim>\<open>NaN\<close>), and the new text.

  The handler has no error value of its own. Reading a property of \<^verbatim>\<open>undefined\<close>
  throws a \<^verbatim>\<open>TypeError\<close> and the state is then not written; every other path ends in
  \<^verbatim>\<open>setPresentations\<close> or in a plain \<^verbatim>\<open>return\<close>.
\<close>

datatype error = TypeError

record presentation =
  project_data :: project_data

record viewer_state =
  presentations :: "presentation list"
  currentPresIndex :: nat

record edit_event =
  data_slide_index :: number
  data_element_type :: "string option"
  data_element_index :: number
  data_row_index :: number
  data_cell_index :: number
  innerText :: string

definition set_cell_text :: "cell list list \<Rightarrow> nat \<Rightarrow> nat \<Rightarrow> string \<Rightarrow> cell list list" where
  "set_cell_text rs r c t = rs[r := (rs ! r)[c := ((rs ! r) ! c)\<lparr> text' := t \<rparr>]]"

definition rename_project :: "string \<Rightarrow> string \<Rightarrow> project_info obj \<Rightarrow> project_info obj" where
  "rename_project originalProjectName updatedContent acts =
     (case obj_get originalProjectName acts of
        None \<Rightarrow> acts
      | Some projectInfo \<Rightarrow> obj_set updatedContent projectInfo (obj_delete originalProjectName acts))"

definition update_information :: "string \<Rightarrow> string \<Rightarrow> project_info obj \<Rightarrow> project_info obj" where
  "update_information projectName updatedContent acts =
     (case obj_get projectName acts of
        None \<Rightarrow> acts
      | Some projectInfo \<Rightarrow>
          obj_overwrite projectName
            (projectInfo\<lparr> information := updatedContent,
                          alerts := \<lparr> advancements = [], small_alerts = [], critical_alerts = [] \<rparr> \<rparr>)
            acts)"

text \<open>
  The table branch, from the point where the table object has been found. \<open>None\<close>
  means that the row or the cell does not exist: the source skips the whole update
  then. The cell text is written first and the project data is updated afterwards,
  from the table as it then is.
\<close>

definition edit_table_cell ::
  "project_data \<Rightarrow> table \<Rightarrow> number \<Rightarrow> number \<Rightarrow> string \<Rightarrow> (error + project_data) option" where
  "edit_table_cell pd tbl rowIndex cellIndex updatedContent =
     (case js_index (rows tbl) rowIndex of
        None \<Rightarrow> None
      | Some r \<Rightarrow>
          (case js_index (rows tbl ! r) cellIndex of
             None \<Rightarrow> None
           | Some c \<Rightarrow>
               (let rows' = set_cell_text (rows tbl) r c updatedContent
                in Some
                  (if rowIndex = Some 0 then Inr pd
                   else if cellIndex = Some 0 then
                     (case js_nth rows' rowIndex of
                        None \<Rightarrow> Inl TypeError
                      | Some row' \<Rightarrow>
                          (case js_nth row' cellIndex of
                             None \<Rightarrow> Inl TypeError
                           | Some edited \<Rightarrow>
                               Inr (pd\<lparr> activities :=
                                     rename_project (text' edited) updatedContent (activities pd) \<rparr>)))
                   else if cellIndex = Some 1 then
                     (case js_nth rows' rowIndex of
                        None \<Rightarrow> Inl TypeError
                      | Some row' \<Rightarrow>
                          (case js_nth row' (Some 0) of
                             None \<Rightarrow> Inl TypeError
                           | Some first \<Rightarrow>
                               Inr (pd\<lparr> activities :=
                                     update_information (text' first) updatedContent (activities pd) \<rparr>)))
                   else if cellIndex = Some 2 then Inr (pd\<lparr> upcoming_events := Some updatedContent \<rparr>)
                   else Inr pd))))"

definition set_current :: "viewer_state \<Rightarrow> presentation \<Rightarrow> viewer_state" where
  "set_current st p = st\<lparr> presentations := (presentations st)[currentPresIndex st := p] \<rparr>"

definition handleStructuredContentEdit :: "viewer_state \<Rightarrow> edit_event \<Rightarrow> error + viewer_state" where
  "handleStructuredContentEdit st ev =
     (let slideIndex = data_slide_index ev;
          updatedContent = innerText ev
      in case data_element_type ev of
           None \<Rightarrow> Inr st
         | Some elementType \<Rightarrow>
             if slideIndex = None \<or> elementType = [] then Inr st
             else
               (case js_nth (presentations st) (Some (int (currentPresIndex st))) of
                  None \<Rightarrow> Inr st
                | Some currentPresentation \<Rightarrow>
                    (let pd = project_data currentPresentation;
                         slide = js_nth (convertProjectDataToSlides pd) slideIndex
                     in if elementType = ''title'' then
                          (case slide of
                             None \<Rightarrow> Inl TypeError
                           | Some sl \<Rightarrow>
                               if slideIndex = Some 0
                               then Inr (set_current st
                                      (currentPresentation\<lparr> project_data :=
                                         pd\<lparr> metadata := (metadata pd)\<lparr> title := updatedContent \<rparr> \<rparr> \<rparr>))
                               else Inr st)
                        else if elementType = ''text'' then
                          (if data_element_index ev = None then Inr st
                           else case slide of
                                  None \<Rightarrow> Inl TypeError
                                | Some sl \<Rightarrow> Inr st)
                        else if str_includes elementType ''table'' then
                          (if data_element_index ev = None then Inr st
                           else case slide of
                                  None \<Rightarrow> Inl TypeError
                                | Some sl \<Rightarrow>
                                    (case js_nth (structuredContent sl) (data_element_index ev) of
                                       None \<Rightarrow> Inr st
                                     | Some item \<Rightarrow>
                                         (case tableObject item of
                                            None \<Rightarrow> Inr st
                                          | Some tbl \<Rightarrow>
                                              (case edit_table_cell pd tbl (data_row_index ev)
                                                      (data_cell_index ev) updatedContent of
                                                 None \<Rightarrow> Inr st
                                               | Some (Inl e) \<Rightarrow> Inl e
                                               | Some (Inr pd') \<Rightarrow>
                                                   Inr (set_current st
                                                     (currentPresentation\<lparr> project_data := pd' \<rparr>))))))
                        else Inr st)))"

section \<open>\<^verbatim>\<open>updateProjectData\<close>\<close>




section \<open>\<^verbatim>\<open>parsePptx\<close>: the title and the tables of a slide\<close>

text \<open>
  The older viewer reads each \<^verbatim>\<open>ppt/slides/slideN.xml\<close> as text. The two parts of the
  loop body modelled here are the resolution of the title and the extraction of the
  tables. \<open>capture re i n s\<close> is the capture group made of the \<open>n\<close> atoms from the
  \<open>i\<close>-th on, at the leftmost match of \<open>re\<close> in \<open>s\<close>.
\<close>

definition pieces_at :: "nat \<Rightarrow> nat \<Rightarrow> string list \<Rightarrow> string" where
  "pieces_at i n ps = concat (take n (drop i ps))"

definition capture :: "atom list \<Rightarrow> nat \<Rightarrow> nat \<Rightarrow> string \<Rightarrow> string option" where
  "capture re i n s = map_option (\<lambda>(b, ps, u). pieces_at i n ps) (rsearch re s)"

definition trim :: "string \<Rightarrow> string" where
  "trim s = rev (dropWhile is_ws (rev (dropWhile is_ws s)))"

text \<open>\<^verbatim>\<open>/<p:cSld[^>]*name="([^"]+)"/\<close>\<close>

definition csld_name_re :: "atom list" where
  \<open>csld_name_re =
     [Str ''<p:cSld'', Greedy (Except CHR ''>''), Str ''name="'',
      One (Except CHR ''"''), Greedy (Except CHR ''"''), Str ''"'']\<close>

text \<open>\<^verbatim>\<open>/<p:ph[^>]*type="title"[^>]*>[\s\S]*?<a:t>(.*?)<\/a:t>/\<close> and the same with
  \<^verbatim>\<open>idx="0"\<close>.\<close>

definition placeholder_re :: "string \<Rightarrow> atom list" where
  "placeholder_re attr =
     [Str ''<p:ph'', Greedy (Except CHR ''>''), Str attr, Greedy (Except CHR ''>''), Str ''>'',
      Lazy AnyChar, Str ''<a:t>'', Lazy Dot, Str ''</a:t>'']"

text \<open>\<^verbatim>\<open>/<a:t>(.*?)<\/a:t>/\<close>\<close>

definition first_text_re :: "atom list" where
  "first_text_re = [Str ''<a:t>'', Lazy Dot, Str ''</a:t>'']"

text \<open>
  The four attempts of the source, in its order. An attempt counts when its expression
  matches and the captured text is not the empty string; the last one also asks that
  the captured text is not white space only. Only the leftmost match of each
  expression is looked at.
\<close>

definition title_from_csld :: "string \<Rightarrow> string" where
  "title_from_csld slideContent =
     (case capture csld_name_re 3 2 slideContent of None \<Rightarrow> [] | Some n \<Rightarrow> n)"

definition title_from_placeholders :: "string \<Rightarrow> string" where
  \<open>title_from_placeholders slideContent =
     (let by_idx = (case capture (placeholder_re ''idx="0"'') 7 1 slideContent of
                      None \<Rightarrow> [] | Some t \<Rightarrow> t)
      in case capture (placeholder_re ''type="title"'') 7 1 slideContent of
           None \<Rightarrow> by_idx
         | Some t \<Rightarrow> if t \<noteq> [] then t else by_idx)\<close>

definition title_from_first_text :: "string \<Rightarrow> string \<Rightarrow> string" where
  "title_from_first_text slideId slideContent =
     (case capture first_text_re 1 1 slideContent of
        None \<Rightarrow> ''Slide '' @ slideId
      | Some t \<Rightarrow> if t \<noteq> [] \<and> trim t \<noteq> [] then t else ''Slide '' @ slideId)"

definition parse_title :: "string \<Rightarrow> string \<Rightarrow> string" where
  "parse_title slideId slideContent =
     (let title1 = title_from_csld slideContent;
          title2 = (if title1 = [] then title_from_placeholders slideContent else title1)
      in if title2 = [] then title_from_first_text slideId slideContent else title2)"

subsection \<open>Tables\<close>

text \<open>\<^verbatim>\<open>s.replace(/pat/g, rep)\<close> for a literal, non-empty \<open>pat\<close>: every occurrence, left to
  right, without overlap. \<open>k\<close> counts the characters of the occurrence just replaced
  that are still to be skipped.\<close>

fun replace_all_from :: "string \<Rightarrow> string \<Rightarrow> nat \<Rightarrow> string \<Rightarrow> string" where
  "replace_all_from pat rep k [] = []"
| "replace_all_from pat rep k (x # xs) =
     (if 0 < k then replace_all_from pat rep (k - 1) xs
      else case strip_prefix pat (x # xs) of
             None \<Rightarrow> x # replace_all_from pat rep 0 xs
           | Some r \<Rightarrow> rep @ replace_all_from pat rep (length pat - 1) xs)"

definition replace_all :: "string \<Rightarrow> string \<Rightarrow> string \<Rightarrow> string" where
  "replace_all pat rep s = replace_all_from pat rep 0 s"

definition decode_entities :: "string \<Rightarrow> string" where
  \<open>decode_entities s =
     replace_all ''&apos;'' [CHR 0x27]
       (replace_all ''&quot;'' ''"''
         (replace_all ''&amp;'' ''&''
           (replace_all ''&gt;'' ''>''
             (replace_all ''&lt;'' ''<'' s))))\<close>

fun join :: "string \<Rightarrow> string list \<Rightarrow> string" where
  "join sep [] = []"
| "join sep [x] = x"
| "join sep (x # y # r) = x @ sep @ join sep (y # r)"


definition gridCol_re :: "atom list" where
  "gridCol_re = [Str ''<a:gridCol'', Greedy (Except CHR ''>''), Str ''/>'']"

definition attr_re :: "string \<Rightarrow> atom list" where
  \<open>attr_re name = [Str (name @ ''="''), One (Except CHR ''"''), Greedy (Except CHR ''"''), Str ''"'']\<close>

definition tr_re :: "atom list" where
  "tr_re = [Str ''<a:tr'', Greedy (Except CHR ''>''), Str ''>'', Lazy AnyChar, Str ''</a:tr>'']"

definition tc_re :: "atom list" where
  "tc_re = [Str ''<a:tc>'', Lazy AnyChar, Str ''</a:tc>'']"

definition t_re :: "atom list" where
  "t_re = [Str ''<a:t>'', Lazy AnyChar, Str ''</a:t>'']"

definition solidFill_re :: "atom list" where
  \<open>solidFill_re =
     [Str ''<a:solidFill>'', Lazy AnyChar, Str ''<a:srgbClr val="'',
      One (Except CHR ''"''), Greedy (Except CHR ''"''), Str ''"'']\<close>

text \<open>
  The column count found in the rows, used when the table declares no
  \<^verbatim>\<open>gridCol\<close>: for each row, the number of matches of \<^verbatim>\<open>/<a:tc/g\<close> plus, for each
  match of \<^verbatim>\<open>/gridSpan="([^"]+)"/g\<close> in the row, its value minus one. Each matched
  attribute is matched again to read its value; that second match cannot fail, and the
  model gives \<^verbatim>\<open>NaN\<close> for it.
\<close>

definition span_value :: "string \<Rightarrow> number" where
  "span_value span =
     (case capture (attr_re ''gridSpan'') 1 2 span of
        None \<Rightarrow> None
      | Some v \<Rightarrow> js_add (parseInt v) (Some (- 1)))"

definition effectiveColCount :: "string \<Rightarrow> number" where
  "effectiveColCount rowMatch =
     fold (\<lambda>span acc. js_add acc (span_value span))
       (match_all (attr_re ''gridSpan'') rowMatch)
       (Some (int (length (match_all [Str ''<a:tc''] rowMatch))))"

definition maxColsInTable :: "string list \<Rightarrow> number" where
  "maxColsInTable rowsMatch =
     fold (\<lambda>rowMatch m. js_max m (effectiveColCount rowMatch)) rowsMatch (Some 0)"

definition cell_text :: "string \<Rightarrow> string" where
  "cell_text cellMatch =
     join '' ''
       (map (\<lambda>t. decode_entities (re_replace t_re (pieces_at 1 1) t))
            (match_all t_re cellMatch))"

definition span_attr :: "string \<Rightarrow> string \<Rightarrow> number" where
  "span_attr name cellMatch =
     (case capture (attr_re name) 1 2 cellMatch of None \<Rightarrow> Some 1 | Some v \<Rightarrow> parseInt v)"

definition parse_cell :: "number \<Rightarrow> string \<Rightarrow> cell" where
  \<open>parse_cell currentColIndex cellMatch =
     \<lparr> text' = cell_text cellMatch,
       html = False,
       rowSpan = span_attr ''rowSpan'' cellMatch,
       colSpan = span_attr ''gridSpan'' cellMatch,
       colIndex = Some currentColIndex,
       style = Some
         \<lparr> bold = Some (str_includes cellMatch ''<a:b/>'' \<or> str_includes cellMatch ''i="bold"''),
           italic = Some (str_includes cellMatch ''<a:i/>'' \<or> str_includes cellMatch ''i="italic"''),
           underline = Some (str_includes cellMatch ''<a:u/>'' \<or> str_includes cellMatch ''i="underline"''),
           bgColor = capture solidFill_re 3 2 cellMatch \<rparr> \<rparr>\<close>

definition pad_cell :: "number \<Rightarrow> cell" where
  "pad_cell currentColIndex =
     \<lparr> text' = [], html = False, rowSpan = Some 1, colSpan = Some 1,
       colIndex = Some currentColIndex, style = Some no_style \<rparr>"

text \<open>The \<^verbatim>\<open>for\<close> loop over the declared cells: the cells and the column index after
  them.\<close>

fun place_cells :: "number \<Rightarrow> string list \<Rightarrow> cell list \<times> number" where
  "place_cells currentColIndex [] = ([], currentColIndex)"
| "place_cells currentColIndex (cellMatch # r) =
     (let c = parse_cell currentColIndex cellMatch;
          (cs, final) = place_cells (js_add currentColIndex (colSpan c)) r
      in (c # cs, final))"

text \<open>\<^verbatim>\<open>while (currentColIndex < totalColsCount) { push; currentColIndex++ }\<close>\<close>

function fill_missing :: "number \<Rightarrow> number \<Rightarrow> cell list" where
  "fill_missing currentColIndex totalColsCount =
     (if js_lt currentColIndex totalColsCount
      then pad_cell currentColIndex # fill_missing (js_add currentColIndex (Some 1)) totalColsCount
      else [])"
  by pat_completeness auto
termination
  by (relation "measure (\<lambda>(c, t). case c of None \<Rightarrow> 0 | Some x \<Rightarrow> (case t of None \<Rightarrow> 0 | Some y \<Rightarrow> nat (y - x)))")
     (auto simp: js_lt_def js_add_def split: option.splits)

declare fill_missing.simps [simp del]

definition parse_row :: "number \<Rightarrow> string \<Rightarrow> cell list" where
  "parse_row totalColsCount rowMatch =
     (let (declared, currentColIndex) = place_cells (Some 0) (match_all tc_re rowMatch)
      in declared @ fill_missing currentColIndex totalColsCount)"

text \<open>The header style is looked for in the first row only.\<close>

definition header_of :: "string list \<Rightarrow> cell_style option" where
  \<open>header_of rowsMatch =
     (case rowsMatch of
        [] \<Rightarrow> None
      | rowMatch # r \<Rightarrow>
          (let boldFormat = (str_includes rowMatch ''<a:b/>'' \<or> str_includes rowMatch ''i="bold"'');
               bgFillColor = capture solidFill_re 3 2 rowMatch
           in if boldFormat \<or> bgFillColor \<noteq> None
              then Some \<lparr> bold = Some boldFormat, italic = None, underline = None,
                          bgColor = bgFillColor \<rparr>
              else None))\<close>

definition parse_table :: "string \<Rightarrow> table" where
  "parse_table tableMatch =
     (let gridColsMatch = match_all gridCol_re tableMatch;
          widths = map (\<lambda>col. case capture (attr_re ''w'') 1 2 col of
                                   None \<Rightarrow> Some 0 | Some w \<Rightarrow> parseInt w) gridColsMatch;
          rowsMatch = match_all tr_re tableMatch;
          totalColsCount = (if gridColsMatch \<noteq> [] then Some (int (length gridColsMatch))
                            else maxColsInTable rowsMatch)
      in \<lparr> rows = map (parse_row totalColsCount) rowsMatch,
           hasHeader = (header_of rowsMatch \<noteq> None),
           headerStyle = header_of rowsMatch,
           colsCount = totalColsCount,
           colWidths = (if widths \<noteq> [] then Some widths else None) \<rparr>)"


section \<open>Predicates and example inputs used by the theorems\<close>

text \<open>\<^verbatim>\<open>cell.style.bold\<close> as the renderer tests it.\<close>

definition is_bold :: "cell \<Rightarrow> bool" where
  "is_bold c = (case style c of None \<Rightarrow> False | Some st \<Rightarrow> bold st = Some True)"

definition two_projects :: project_data where
  "two_projects =
     \<lparr> activities =
         [(''Alpha'', \<lparr> information = ''ok'',
             alerts = \<lparr> advancements = [''ok''], small_alerts = [], critical_alerts = [] \<rparr> \<rparr>),
          (''Gamma'', \<lparr> information = ''late'',
             alerts = \<lparr> advancements = [], small_alerts = [], critical_alerts = [''late''] \<rparr> \<rparr>)],
       upcoming_events = Some ''soon'',
       metadata = \<lparr> title = ''Weekly'' \<rparr> \<rparr>"

text \<open>The payload of the rename scenario of the specification.\<close>

definition alpha_data :: project_data where
  "alpha_data =
     \<lparr> activities =
         [(''Alpha'', \<lparr> information = ''ok'',
             alerts = \<lparr> advancements = [''ok''], small_alerts = [], critical_alerts = [] \<rparr> \<rparr>)],
       upcoming_events = Some ''soon'',
       metadata = \<lparr> title = ''Weekly'' \<rparr> \<rparr>"

definition alpha_state :: viewer_state where
  "alpha_state = \<lparr> presentations = [\<lparr> project_data = alpha_data \<rparr>], currentPresIndex = 0 \<rparr>"

definition two_state :: viewer_state where
  "two_state = \<lparr> presentations = [\<lparr> project_data = two_projects \<rparr>], currentPresIndex = 0 \<rparr>"

text \<open>The event of a cell edit: the blur of an element that the preview rendered with
  \<^verbatim>\<open>data-element-type="table"\<close> and the four coordinates.\<close>

definition editCell :: "int \<Rightarrow> int \<Rightarrow> int \<Rightarrow> int \<Rightarrow> string \<Rightarrow> edit_event" where
  "editCell slideIndex itemIndex row col newText =
     \<lparr> data_slide_index = Some slideIndex, data_element_type = Some ''table'',
       data_element_index = Some itemIndex, data_row_index = Some row,
       data_cell_index = Some col, innerText = newText \<rparr>"

definition current_activities :: "viewer_state \<Rightarrow> project_info obj" where
  "current_activities st = activities (project_data (presentations st ! currentPresIndex st))"

text \<open>The cell that the coordinates of an edit resolve to, if any.\<close>

definition resolve_cell :: "slide list \<Rightarrow> number \<Rightarrow> number \<Rightarrow> number \<Rightarrow> number \<Rightarrow> cell option" where
  "resolve_cell slides slideIndex itemIndex row col =
     (case js_nth slides slideIndex of
        None \<Rightarrow> None
      | Some sl \<Rightarrow>
          (case js_nth (structuredContent sl) itemIndex of
             None \<Rightarrow> None
           | Some item \<Rightarrow>
               (case tableObject item of
                  None \<Rightarrow> None
                | Some tbl \<Rightarrow>
                    (case js_nth (rows tbl) row of
                       None \<Rightarrow> None
                     | Some r \<Rightarrow> js_nth r col))))"


text \<open>The cells that a source row declares, before any padding.\<close>

definition declared_cells :: "string \<Rightarrow> cell list" where
  "declared_cells rowMatch = fst (place_cells (Some 0) (match_all tc_re rowMatch))"






text \<open>A cell as presentation software writes it, with its \<^verbatim>\<open>tcPr\<close> element, in a table
  without self-closing \<^verbatim>\<open>gridCol\<close> elements.\<close>

definition one_cell_table :: string where
  \<open>one_cell_table = ''<a:tbl><a:tr h="370840"><a:tc><a:txBody><a:p><a:r><a:t>A</a:t></a:r></a:p></a:txBody><a:tcPr/></a:tc></a:tr></a:tbl>''\<close>

text \<open>The column count as the specification words it for a table without declared grid
  columns: the maximum, over the rows, of the number of declared cells of the row plus
  the sum over these cells of \<^verbatim>\<open>colSpan - 1\<close>.\<close>

definition spec_row_columns :: "string \<Rightarrow> number" where
  "spec_row_columns rowMatch =
     fold (\<lambda>c acc. js_add acc (js_add (colSpan c) (Some (- 1)))) (declared_cells rowMatch)
       (Some (int (length (declared_cells rowMatch))))"

definition spec_columnCount :: "string \<Rightarrow> number" where
  "spec_columnCount tableMatch =
     fold (\<lambda>rowMatch m. js_max m (spec_row_columns rowMatch)) (match_all tr_re tableMatch) (Some 0)"

text \<open>All text runs of a slide, as the source collects them in \<^verbatim>\<open>allTexts\<close>, and the
  first of them that is not empty or white space.\<close>

definition allTexts :: "string \<Rightarrow> string list" where
  "allTexts slideContent =
     map (\<lambda>t. decode_entities (re_replace t_re (pieces_at 1 1) t)) (match_all t_re slideContent)"

definition first_nonempty_text :: "string \<Rightarrow> string option" where
  "first_nonempty_text slideContent = find (\<lambda>t. trim t \<noteq> []) (allTexts slideContent)"

definition empty_run_slide :: string where
  \<open>empty_run_slide = ''<p:sld><p:cSld><p:spTree><p:sp><p:txBody><a:p><a:r><a:t></a:t></a:r></a:p><a:p><a:r><a:t>Hello</a:t></a:r></a:p></p:txBody></p:sp></p:spTree></p:cSld></p:sld>''\<close>

definition idx_placeholder_slide :: string where
  \<open>idx_placeholder_slide = ''<p:sld><p:cSld><p:spTree><p:sp><p:nvSpPr><p:nvPr><p:ph idx="0"/></p:nvPr></p:nvSpPr><p:txBody><a:p><a:r><a:t>Q3 Review</a:t></a:r></a:p></p:txBody></p:sp></p:spTree></p:cSld></p:sld>''\<close>








text \<open>
  A text in which phrases are located: plain text, a phrase with its tier, plain text,
  a phrase, ..., and the text after the last phrase. \<open>mark D\<close> is the text with the
  phrases of the tiers in \<open>D\<close> wrapped in their spans; \<open>plain_text\<close> is the text
  itself, and \<open>alerts_of\<close> is the alert set that lists the phrases of each tier in the
  order of the text.
\<close>

type_synonym segment = "string \<times> string \<times> tier"

fun mark :: "(tier \<Rightarrow> bool) \<Rightarrow> segment list \<Rightarrow> string \<Rightarrow> string" where
  "mark D [] tail = tail"
| "mark D ((s, p, t) # r) tail =
     s @ (if D t then open_tag t @ p @ close_tag else p) @ mark D r tail"

definition plain_text :: "segment list \<Rightarrow> string \<Rightarrow> string" where
  "plain_text segs tail = mark (\<lambda>t. False) segs tail"

definition phrases_of :: "tier \<Rightarrow> segment list \<Rightarrow> string list" where
  "phrases_of t segs = map (\<lambda>(s, p, t'). p) (filter (\<lambda>(s, p, t'). t' = t) segs)"

definition alerts_of :: "segment list \<Rightarrow> alerts" where
  "alerts_of segs =
     \<lparr> advancements = phrases_of Advancement segs,
       small_alerts = phrases_of SmallAlert segs,
       critical_alerts = phrases_of CriticalAlert segs \<rparr>"

text \<open>
  \<open>first_at a p\<close>: searching \<open>p\<close> in \<open>a @ p\<close> finds it after \<open>a\<close> and not earlier;
  \<open>first_occurrences\<close>: every located phrase is the first occurrence of that phrase in
  the plain text.
\<close>

definition first_at :: "string \<Rightarrow> string \<Rightarrow> bool" where
  "first_at a p = (rsearch [Str p] (a @ p) = Some (a, [p], []))"

fun first_occurrences :: "string \<Rightarrow> segment list \<Rightarrow> bool" where
  "first_occurrences a [] = True"
| "first_occurrences a ((s, p, t) # r) = (first_at (a @ s) p \<and> first_occurrences (a @ s @ p) r)"

text \<open>
  A phrase without \<^verbatim>\<open><\<close>, \<^verbatim>\<open>>\<close>, \<^verbatim>\<open>$\<close> and line terminator that is not part of the text
  of a tag; plain text is without \<^verbatim>\<open><\<close>.
\<close>

definition clean_phrase :: "string \<Rightarrow> bool" where
  "clean_phrase p =
     (CHR ''<'' \<notin> set p \<and> CHR ''>'' \<notin> set p \<and> CHR ''$'' \<notin> set p \<and> list_all (cls_ok Dot) p
      \<and> \<not> str_includes (open_tag Advancement) p \<and> \<not> str_includes (open_tag SmallAlert) p
      \<and> \<not> str_includes (open_tag CriticalAlert) p \<and> \<not> str_includes close_tag p)"

fun clean_segments :: "segment list \<Rightarrow> bool" where
  "clean_segments [] = True"
| "clean_segments ((s, p, t) # r) = (CHR ''<'' \<notin> set s \<and> clean_phrase p \<and> clean_segments r)"

text \<open>\<open>marks M N\<close>: the text \<open>M\<close> is the text \<open>N\<close> with tags inserted.\<close>

inductive marks :: "string \<Rightarrow> string \<Rightarrow> bool" where
  marks_Nil: "marks [] []"
| marks_Cons: "marks M N \<Longrightarrow> marks (x # M) (x # N)"
| marks_open: "marks M N \<Longrightarrow> marks (open_tag t @ M) N"
| marks_close: "marks M N \<Longrightarrow> marks (close_tag @ M) N"

definition status_segments :: "segment list" where
  "status_segments =
     [(''Status: '', ''Delivery done'', Advancement),
      (''. Risk: '', ''Budget overrun'', CriticalAlert),
      (''! Minor: '', ''Late docs'', SmallAlert),
      ('' and '', ''Tests pass'', Advancement)]"

definition swapped_info :: project_info where
  "swapped_info =
     \<lparr> information = ''Alpha Beta'',
       alerts = \<lparr> advancements = [''Beta'', ''Alpha''], small_alerts = [], critical_alerts = [] \<rparr> \<rparr>"

definition collision_info :: project_info where
  "collision_info =
     \<lparr> information = ''ok an'',
       alerts = \<lparr> advancements = [''ok''], small_alerts = [''an''], critical_alerts = [] \<rparr> \<rparr>"

section \<open>The generated slide\<close>

lemma tableRows_length: "length (tableRows pd) = Suc (length (activities pd))"
  by (simp add: tableRows_def)

lemma tableRows_header: "tableRows pd ! 0 = header_row"
  by (simp add: tableRows_def)

lemma tableRows_data:
  assumes "i < length (activities pd)"
  shows "tableRows pd ! Suc i = projectRow pd i (activities pd ! i)"
  using assms by (simp add: tableRows_def nth_enumerate_eq)

text \<open>
  Claim C10. For a payload with at least one project, \<^verbatim>\<open>convertProjectDataToSlides\<close>
  returns one slide with exactly one table (also the only table among its content
  items). Row 0 of the table is a header of three bold cells; there is one data row per
  project, in the order of the projects, whose name cell and information cell have
  \<^verbatim>\<open>rowSpan\<close> 1 and \<^verbatim>\<open>colSpan\<close> 1; the first data row has a third cell, the
  upcoming-events cell, whose \<^verbatim>\<open>rowSpan\<close> is the number of projects, and every later
  data row has exactly two cells.
\<close>

theorem generated_table_shape:
  assumes "activities pd \<noteq> []"
  shows "convertProjectDataToSlides pd = [mainSlide pd]
    \<and> tables (mainSlide pd) = [project_table pd]
    \<and> map tableObject (structuredContent (mainSlide pd)) = [None, Some (project_table pd)]
    \<and> length (rows (project_table pd)) = Suc (length (activities pd))
    \<and> length (rows (project_table pd) ! 0) = 3
    \<and> list_all is_bold (rows (project_table pd) ! 0)
    \<and> (\<forall>i < length (activities pd).
          length (rows (project_table pd) ! Suc i) = (if i = 0 then 3 else 2)
          \<and> text' (rows (project_table pd) ! Suc i ! 0) = fst (activities pd ! i)
          \<and> rowSpan (rows (project_table pd) ! Suc i ! 0) = Some 1
          \<and> colSpan (rows (project_table pd) ! Suc i ! 0) = Some 1
          \<and> rowSpan (rows (project_table pd) ! Suc i ! 1) = Some 1
          \<and> colSpan (rows (project_table pd) ! Suc i ! 1) = Some 1)
    \<and> rowSpan (rows (project_table pd) ! 1 ! 2) = Some (int (length (activities pd)))
    \<and> colSpan (rows (project_table pd) ! 1 ! 2) = Some 1"
proof -
  have slides: "convertProjectDataToSlides pd = [mainSlide pd]"
    by (simp add: convertProjectDataToSlides_def)
  have tabs: "tables (mainSlide pd) = [project_table pd]"
    using assms by (simp add: mainSlide_def)
  have items: "map tableObject (structuredContent (mainSlide pd)) = [None, Some (project_table pd)]"
    using assms by (simp add: mainSlide_def)
  have rws: "rows (project_table pd) = tableRows pd"
    by (simp add: project_table_def)
  have hdr: "length header_row = 3 \<and> list_all is_bold header_row"
    by (simp add: header_row_def header_cell_def header_style_def is_bold_def)
  have data: "length (tableRows pd ! Suc i) = (if i = 0 then 3 else 2)
          \<and> text' (tableRows pd ! Suc i ! 0) = fst (activities pd ! i)
          \<and> rowSpan (tableRows pd ! Suc i ! 0) = Some 1
          \<and> colSpan (tableRows pd ! Suc i ! 0) = Some 1
          \<and> rowSpan (tableRows pd ! Suc i ! 1) = Some 1
          \<and> colSpan (tableRows pd ! Suc i ! 1) = Some 1" if "i < length (activities pd)" for i
    using that by (simp add: tableRows_data projectRow_def name_cell_def info_cell_def)
  have "0 < length (activities pd)" using assms by simp
  then have "tableRows pd ! Suc 0 = projectRow pd 0 (activities pd ! 0)"
    by (rule tableRows_data)
  then have ev: "rowSpan (tableRows pd ! 1 ! 2) = Some (int (length (activities pd)))
     \<and> colSpan (tableRows pd ! 1 ! 2) = Some 1"
    by (simp add: projectRow_def events_cell_def)
  show ?thesis
    using slides tabs items hdr data ev
    by (simp add: rws tableRows_length tableRows_header)
qed

theorem generated_table_shape_witness:
  "activities two_projects \<noteq> []
   \<and> tables (mainSlide two_projects) = [project_table two_projects]
   \<and> length (rows (project_table two_projects)) = 3
   \<and> length (rows (project_table two_projects) ! 1) = 3
   \<and> length (rows (project_table two_projects) ! 2) = 2
   \<and> rowSpan (rows (project_table two_projects) ! 1 ! 2) = Some 2"
proof -
  have ne: "activities two_projects \<noteq> []" by (simp add: two_projects_def)
  have len: "length (activities two_projects) = 2" by (simp add: two_projects_def)
  from generated_table_shape [OF ne] show ?thesis
    using ne len by (auto simp: numeral_2_eq_2)
qed

section \<open>Cell edits\<close>

text \<open>
  Claim C1, at the input of the specification's own scenario. The payload has the single
  project \<open>Alpha\<close>; its name cell is row 1, cell 0 of the table, which is content item 1
  of slide 0. Editing that cell to \<open>Beta\<close> leaves the payload as it was: the handler
  writes the new text into the cell before it reads the "original" project name back
  from the same cell, so it looks up \<open>Beta\<close>, finds no such project and renames
  nothing. \<open>Alpha\<close> is still present and \<open>Beta\<close> is absent.
\<close>

theorem rename_not_applied:
  "handleStructuredContentEdit alpha_state (editCell 0 1 1 0 ''Beta'') = Inr alpha_state
   \<and> text' (rows (project_table (project_data (presentations alpha_state ! 0))) ! 1 ! 0) = ''Alpha''
   \<and> obj_get ''Alpha'' (current_activities alpha_state) \<noteq> None
   \<and> obj_get ''Beta'' (current_activities alpha_state) = None"
  by code_simp

text \<open>
  Claim C3 as stated fails: on a document whose table has three rows and three columns,
  the edit at row 99, cell 99 returns normally, with the state it was given, both for
  content item 0 (the title item, which has no table) and for content item 1 (the
  table). Nothing is reported.
\<close>

theorem out_of_range_edit_silent:
  "handleStructuredContentEdit two_state (editCell 0 0 99 99 ''x'') = Inr two_state
   \<and> handleStructuredContentEdit two_state (editCell 0 1 99 99 ''x'') = Inr two_state"
  by code_simp

lemma includes_table_not_title: "str_includes ty ''table'' \<Longrightarrow> ty \<noteq> ''title'' \<and> ty \<noteq> ''text''"
  by (auto simp: str_includes_def)

text \<open>
  Claim C3, amended. A cell edit whose slide index resolves but whose item index, row or
  cell does not resolve to an existing table cell is ignored: the handler returns
  normally and the presentations, with their project data, are unchanged.
\<close>

theorem unresolved_cell_edit_ignored:
  assumes ty: "data_element_type ev = Some ty" "str_includes ty ''table''"
    and cur: "js_nth (presentations st) (Some (int (currentPresIndex st))) = Some p"
    and sl: "js_nth (convertProjectDataToSlides (project_data p)) (data_slide_index ev) \<noteq> None"
    and un: "resolve_cell (convertProjectDataToSlides (project_data p)) (data_slide_index ev)
               (data_element_index ev) (data_row_index ev) (data_cell_index ev) = None"
  shows "handleStructuredContentEdit st ev = Inr st"
proof -
  from includes_table_not_title [OF ty(2)] have nt: "ty \<noteq> ''title''" "ty \<noteq> ''text''" by simp_all
  from ty(2) have ne: "ty \<noteq> []" by (auto simp: str_includes_def)
  from sl have si: "data_slide_index ev \<noteq> None"
    by (auto simp: js_nth_def js_index_def split: option.splits)
  show ?thesis
    using ty cur sl un nt ne si
    by (auto simp: handleStructuredContentEdit_def resolve_cell_def edit_table_cell_def
        js_nth_def Let_def split: option.splits)
qed

theorem unresolved_cell_edit_ignored_witness:
  "handleStructuredContentEdit two_state (editCell 0 1 3 0 ''x'') = Inr two_state"
proof -
  have 1: "data_element_type (editCell 0 1 3 0 ''x'') = Some ''table''"
    by (simp add: editCell_def)
  have 2: "str_includes ''table'' ''table''" by code_simp
  have 3: "js_nth (presentations two_state) (Some (int (currentPresIndex two_state)))
             = Some \<lparr> project_data = two_projects \<rparr>"
    by code_simp
  have 4: "js_nth (convertProjectDataToSlides (project_data \<lparr> project_data = two_projects \<rparr>))
             (data_slide_index (editCell 0 1 3 0 ''x'')) \<noteq> None"
    by code_simp
  have 5: "resolve_cell (convertProjectDataToSlides (project_data \<lparr> project_data = two_projects \<rparr>))
             (data_slide_index (editCell 0 1 3 0 ''x'')) (data_element_index (editCell 0 1 3 0 ''x''))
             (data_row_index (editCell 0 1 3 0 ''x'')) (data_cell_index (editCell 0 1 3 0 ''x'')) = None"
    by code_simp
  show ?thesis by (rule unresolved_cell_edit_ignored [OF 1 2 3 4 5])
qed

section \<open>The table extractor\<close>










text \<open>
  Claim C9, at a table without self-closing \<^verbatim>\<open>gridCol\<close> whose single row declares
  the single cell \<open>A\<close>, of \<^verbatim>\<open>colSpan\<close> 1. The maximum of the claim is 1. The source
  counts the matches of \<^verbatim>\<open>/<a:tc/g\<close>, which also finds the \<^verbatim>\<open><a:tcPr/>\<close> inside the
  cell, and computes 2; the row gets a second, empty cell.
\<close>

theorem column_count_counts_cell_properties:
  "match_all gridCol_re one_cell_table = []
   \<and> map (map text') (rows (parse_table one_cell_table)) = [[''A'', '''']]
   \<and> map (map text' \<circ> declared_cells) (match_all tr_re one_cell_table) = [[''A'']]
   \<and> map (map colSpan \<circ> declared_cells) (match_all tr_re one_cell_table) = [[Some 1]]
   \<and> spec_columnCount one_cell_table = Some 1
   \<and> colsCount (parse_table one_cell_table) = Some 2"
  by code_simp

text \<open>The second half of claim C9 holds: declared grid columns give the column count.\<close>

lemma declared_grid_column_count:
  "match_all gridCol_re tm \<noteq> [] \<Longrightarrow>
     colsCount (parse_table tm) = Some (int (length (match_all gridCol_re tm)))"
  by (simp add: parse_table_def Let_def)

section \<open>The title of a slide\<close>

text \<open>
  Claim C5, at a slide without name attribute and without placeholder whose first text
  run is empty and whose second text run is \<open>Hello\<close>. The first non-empty text run of
  the slide is \<open>Hello\<close>; the source looks at the leftmost match of
  \<^verbatim>\<open>/<a:t>(.*?)<\/a:t>/\<close> only, finds it empty and falls back to \<open>Slide 1\<close>.
\<close>

theorem title_ignores_later_text:
  "allTexts empty_run_slide = ['''', ''Hello'']
   \<and> first_nonempty_text empty_run_slide = Some ''Hello''
   \<and> title_from_csld empty_run_slide = []
   \<and> title_from_placeholders empty_run_slide = []
   \<and> parse_title ''1'' empty_run_slide = ''Slide 1''"
  by code_simp

text \<open>The scenario of claim C5 holds: the placeholder of index 0 gives the title.\<close>

lemma title_from_idx_placeholder:
  "parse_title ''1'' idx_placeholder_slide = ''Q3 Review''"
  by code_simp

section \<open>The matcher on marked-up text\<close>

lemma strip_prefix_append [simp]: "strip_prefix l (l @ s) = Some s"
  by (induction l) auto


lemma strip_prefix_mismatch: "c \<noteq> x \<Longrightarrow> strip_prefix (c # l) (x # xs) = None"
  by simp

text \<open>A pattern that starts with literal text matches only where that text starts.\<close>

lemma rmatch_Str_None: "strip_prefix l s = None \<Longrightarrow> rmatch (Str l # r) s = None"
  by simp


lemma rmatch_Str_append: "rmatch (Str l # r) (l @ s) = map_option (\<lambda>(ps, u). (l # ps, u)) (rmatch r s)"
  by simp

lemma rmatch_last_Str: "rmatch [Str l] s = map_option (\<lambda>t. ([l], t)) (strip_prefix l s)"
  by (cases "strip_prefix l s") auto

text \<open>The lazy star of the span expressions stops at the first closing tag.\<close>

lemma lazy_dot_until_close:
  assumes "CHR ''<'' \<notin> set p" and "list_all (cls_ok Dot) p"
  shows "rmatch [Lazy Dot, Str close_tag] (p @ close_tag @ u) = Some ([p, close_tag], u)"
  using assms
proof (induction p)
  case Nil
  show ?case by (simp add: rmatch_last_Str)
next
  case (Cons x p)
  then have x: "x \<noteq> CHR ''<''" and ok: "cls_ok Dot x" by auto
  have "strip_prefix close_tag ((x # p) @ close_tag @ u) = None"
    using x by (auto simp: close_tag_def)
  then have "rmatch [Str close_tag] ((x # p) @ close_tag @ u) = None"
    by (simp add: rmatch_last_Str)
  then show ?case
    using Cons ok by (simp del: cls_ok.simps)
qed

lemma span_match:
  assumes "CHR ''<'' \<notin> set p" and "list_all (cls_ok Dot) p"
  shows "rmatch (span_re t) (open_tag t @ p @ close_tag @ u) = Some ([open_tag t, p, close_tag], u)"
  unfolding span_re_def
  by (simp only: rmatch_Str_append lazy_dot_until_close [OF assms]) simp

lemma match_all_from_skip: "match_all_from re (length m) (m @ s) = match_all_from re 0 s"
  by (induction m) auto

lemma match_all_from_hit:
  assumes "rmatch re (m @ u) = Some (ps, u)" and "concat ps = m" and "m \<noteq> []"
  shows "match_all_from re 0 (m @ u) = m # match_all_from re 0 u"
proof -
  obtain x m' where m: "m = x # m'" using assms(3) by (cases m) auto
  have "match_all_from re 0 ((x # m') @ u) = m # match_all_from re (length m') (m' @ u)"
    using assms(1,2) m by simp
  then show ?thesis by (simp add: m match_all_from_skip)
qed

lemma match_all_from_miss:
  assumes "rmatch re (x # s) = None"
  shows "match_all_from re 0 (x # s) = match_all_from re 0 s"
  using assms by simp

lemma open_tag_Cons: "\<exists>l. open_tag t = CHR ''<'' # CHR ''s'' # l"
  by (cases t) auto

lemma span_no_match_char:
  assumes "x \<noteq> CHR ''<''"
  shows "rmatch (span_re t) (x # s) = None"
proof -
  obtain l where "open_tag t = CHR ''<'' # CHR ''s'' # l" using open_tag_Cons by blast
  then show ?thesis using assms by (simp add: span_re_def)
qed

lemma span_no_match_second:
  assumes "y \<noteq> CHR ''s''"
  shows "rmatch (span_re t) (x # y # s) = None"
proof -
  obtain l where "open_tag t = CHR ''<'' # CHR ''s'' # l" using open_tag_Cons by blast
  then show ?thesis using assms by (simp add: span_re_def)
qed

lemma span_no_match_empty: "rmatch (span_re t) [] = None"
proof -
  obtain l where "open_tag t = CHR ''<'' # CHR ''s'' # l" using open_tag_Cons by blast
  then show ?thesis by (simp add: span_re_def)
qed

lemma match_all_plain_prefix:
  assumes "CHR ''<'' \<notin> set pre"
  shows "match_all_from (span_re t) 0 (pre @ s) = match_all_from (span_re t) 0 s"
  using assms by (induction pre) (auto simp: span_no_match_char)

lemma match_all_plain:
  assumes "CHR ''<'' \<notin> set s"
  shows "match_all (span_re t) s = []"
  using match_all_plain_prefix [OF assms, of t "[]"]
  by (simp add: match_all_def span_no_match_empty)

lemma match_all_close_tag:
  "match_all_from (span_re t) 0 (close_tag @ s) = match_all_from (span_re t) 0 s"
proof -
  have "match_all_from (span_re t) 0 (close_tag @ s)
      = match_all_from (span_re t) 0 (''/span>'' @ s)"
    by (simp add: close_tag_def span_no_match_second)
  also have "\<dots> = match_all_from (span_re t) 0 s"
    by (rule match_all_plain_prefix) simp
  finally show ?thesis .
qed

lemma other_tag_no_match:
  assumes "t \<noteq> t'"
  shows "rmatch (span_re t) (open_tag t' @ s) = None"
  using assms by (cases t; cases t') (simp_all add: span_re_def)

lemma open_tag_tail_plain: "CHR ''<'' \<notin> set (tl (open_tag t))"
  by (cases t) auto

lemma open_tag_nonempty: "open_tag t \<noteq> []"
  by (cases t) auto

lemma match_all_other_tag:
  assumes "t \<noteq> t'"
  shows "match_all_from (span_re t) 0 (open_tag t' @ s) = match_all_from (span_re t) 0 s"
proof -
  obtain x l where o: "open_tag t' = x # l" using open_tag_nonempty [of t'] by (cases "open_tag t'") auto
  have l: "CHR ''<'' \<notin> set l" using open_tag_tail_plain [of t'] o by simp
  have "rmatch (span_re t) (x # l @ s) = None"
    using other_tag_no_match [OF assms, of s] o by simp
  then have "match_all_from (span_re t) 0 (open_tag t' @ s) = match_all_from (span_re t) 0 (l @ s)"
    using o by simp
  also have "\<dots> = match_all_from (span_re t) 0 s"
    by (rule match_all_plain_prefix [OF l])
  finally show ?thesis .
qed

lemma match_all_span:
  assumes pre: "CHR ''<'' \<notin> set pre" and p: "CHR ''<'' \<notin> set p" and dot: "list_all (cls_ok Dot) p"
  shows "match_all (span_re t) (pre @ open_tag t' @ p @ close_tag @ u)
       = (if t = t' then [open_tag t @ p @ close_tag] else []) @ match_all (span_re t) u"
proof (cases "t = t'")
  case True
  have ne: "open_tag t @ p @ close_tag \<noteq> []" using open_tag_nonempty by simp
  have "match_all_from (span_re t) 0 ((open_tag t @ p @ close_tag) @ u)
      = (open_tag t @ p @ close_tag) # match_all_from (span_re t) 0 u"
    by (rule match_all_from_hit [where ps = "[open_tag t, p, close_tag]"])
       (use span_match [OF p dot, of t u] ne in simp_all)
  then show ?thesis
    using True by (simp add: match_all_def match_all_plain_prefix [OF pre])
next
  case False
  have "match_all_from (span_re t) 0 (open_tag t' @ p @ close_tag @ u)
      = match_all_from (span_re t) 0 (p @ close_tag @ u)"
    by (rule match_all_other_tag [OF False])
  also have "\<dots> = match_all_from (span_re t) 0 (close_tag @ u)"
    by (rule match_all_plain_prefix [OF p])
  also have "\<dots> = match_all_from (span_re t) 0 u"
    by (rule match_all_close_tag)
  finally show ?thesis
    using False by (simp add: match_all_def match_all_plain_prefix [OF pre])
qed

section \<open>Classification of spans\<close>

lemma rsearch_literal_here: "rsearch [Str l] (l @ u) = Some ([], [l], u)"
proof (cases "l @ u")
  case Nil
  then show ?thesis by (simp add: rmatch_last_Str)
next
  case (Cons a list)
  have "rmatch [Str l] (l @ u) = Some ([l], u)" by (simp add: rmatch_last_Str)
  then have m: "rmatch [Str l] (a # list) = Some ([l], u)" by (simp only: Cons)
  show ?thesis unfolding Cons by (simp only: rsearch.simps m) simp
qed

lemma rsearch_literal_plain_prefix:
  assumes "c \<notin> set pre"
  shows "rsearch [Str (c # l)] (pre @ (c # l) @ u) = Some (pre, [c # l], u)"
  using assms
proof (induction pre)
  case Nil
  show ?case using rsearch_literal_here [of "c # l" u] by simp
next
  case (Cons x pre)
  then have "x \<noteq> c" by auto
  then have "rmatch [Str (c # l)] (x # pre @ (c # l) @ u) = None" by simp
  then show ?case using Cons by simp
qed

lemma strip_span_span:
  assumes "CHR ''<'' \<notin> set p"
  shows "strip_span t (open_tag t @ p @ close_tag) = p"
proof -
  have 1: "re_replace [Str (open_tag t)] (\<lambda>_. []) (open_tag t @ p @ close_tag) = p @ close_tag"
    by (simp add: re_replace_def rsearch_literal_here)
  have "rsearch [Str close_tag] (p @ close_tag @ []) = Some (p, [close_tag], [])"
    unfolding close_tag_def using assms by (intro rsearch_literal_plain_prefix)
  then have 2: "re_replace [Str close_tag] (\<lambda>_. []) (p @ close_tag) = p"
    by (simp add: re_replace_def)
  show ?thesis by (simp add: strip_span_def 1 2)
qed

lemma extract_tier_span:
  assumes "CHR ''<'' \<notin> set pre" and "CHR ''<'' \<notin> set p" and "list_all (cls_ok Dot) p"
  shows "extract_tier t (pre @ open_tag t' @ p @ close_tag @ u)
       = (if t = t' then [p] else []) @ extract_tier t u"
  by (simp add: extract_tier_def match_all_span [OF assms] strip_span_span [OF assms(2)])

lemma extract_tier_plain:
  assumes "CHR ''<'' \<notin> set s"
  shows "extract_tier t s = []"
  by (simp add: extract_tier_def match_all_plain [OF assms])


lemma rsearch_literal_found: "rsearch [Str l] (a @ l @ u) \<noteq> None"
proof (induction a)
  case Nil
  show ?case by (simp add: rsearch_literal_here)
next
  case (Cons x a)
  then show ?case by (cases "rmatch [Str l] (x # a @ l @ u)") auto
qed





section \<open>The round trip through the table\<close>

lemma map_of_obj_overwrite:
  "map_of ob k \<noteq> None \<Longrightarrow> map_of (obj_overwrite k v ob) = (map_of ob)(k \<mapsto> v)"
  by (induction ob) (auto simp: fun_upd_twist)

lemma map_of_obj_insert_index:
  "map_of ob k = None \<Longrightarrow> map_of (obj_insert_index k v ob) = (map_of ob)(k \<mapsto> v)"
  by (induction ob) (auto simp: fun_upd_twist split: if_splits)

lemma map_of_obj_set:
  assumes "k \<noteq> ''__proto__''"
  shows "map_of (obj_set k v ob) = (map_of ob)(k \<mapsto> v)"
proof (cases "map_of ob k")
  case None
  then have "[k \<mapsto> v] ++ map_of ob = (map_of ob)(k \<mapsto> v)"
    by (auto simp: map_add_def fun_eq_iff split: option.splits)
  then show ?thesis
    using assms None by (auto simp: obj_set_def map_of_obj_insert_index)
next
  case (Some a)
  then show ?thesis
    using assms by (simp add: obj_set_def map_of_obj_overwrite)
qed











section \<open>Injection followed by classification\<close>

lemma strip_prefix_prefix: "(strip_prefix l s \<noteq> None) = prefix l s"
proof (induction l s rule: strip_prefix.induct)
  case (1 s) show ?case by simp
next
  case (2 c l) show ?case by simp
next
  case (3 c l x xs) then show ?case by auto
qed

lemma rmatch_literal_prefix: "(rmatch [Str l] s \<noteq> None) = prefix l s"
  using strip_prefix_prefix [of l s] by (cases "strip_prefix l s") (auto simp: rmatch_last_Str)

lemma rmatch_literal_None: "\<not> prefix l s \<Longrightarrow> rmatch [Str l] s = None"
  using strip_prefix_prefix [of l s] by (cases "strip_prefix l s") auto

lemma marks_refl: "marks s s"
  by (induction s) (auto intro: marks.intros)

lemma marks_append: "marks M N \<Longrightarrow> marks M' N' \<Longrightarrow> marks (M @ M') (N @ N')"
  by (induction rule: marks.induct) (auto intro: marks.intros)

lemma marks_append_same: "marks M N \<Longrightarrow> marks (M @ z) (N @ z)"
  by (rule marks_append [OF _ marks_refl])

lemma close_tag_Cons: "close_tag = CHR ''<'' # ''/span>''"
  by (simp add: close_tag_def)

lemma marks_prefix:
  assumes "marks M N" and "CHR ''<'' \<notin> set l" and "prefix l M"
  shows "prefix l N"
  using assms
proof (induction arbitrary: l rule: marks.induct)
  case marks_Nil
  then show ?case by simp
next
  case (marks_Cons M N x)
  then show ?case by (cases l) auto
next
  case (marks_open M N t)
  obtain r where "open_tag t = CHR ''<'' # CHR ''s'' # r" using open_tag_Cons by blast
  with marks_open.prems have "l = []" by (cases l) auto
  then show ?case by simp
next
  case (marks_close M N)
  from marks_close.prems have "l = []" by (cases l) (auto simp: close_tag_def)
  then show ?case by simp
qed

lemma first_at_Nil: "first_at [] p"
  by (simp add: first_at_def rsearch_literal_here [of p "[]", simplified])

lemma first_at_Cons: "first_at (x # a) p = (\<not> prefix p (x # a @ p) \<and> first_at a p)"
proof (cases "rmatch [Str p] (x # a @ p)")
  case None
  then have "\<not> prefix p (x # a @ p)" using rmatch_literal_prefix [of p "x # a @ p"] by simp
  then show ?thesis
    using None by (cases "rsearch [Str p] (a @ p)") (auto simp: first_at_def)
next
  case (Some m)
  then have "prefix p (x # a @ p)" using rmatch_literal_prefix [of p "x # a @ p"] by simp
  then show ?thesis
    using Some by (auto simp: first_at_def)
qed


lemma prefix_short:
  assumes "prefix p (u @ b)" and "length p \<le> length u"
  shows "prefix p u"
  using assms by (auto simp: prefix_append)

lemma first_at_search:
  assumes "first_at a p"
  shows "rsearch [Str p] (a @ p @ b) = Some (a, [p], b)"
  using assms
proof (induction a)
  case Nil
  show ?case by (simp add: rsearch_literal_here)
next
  case (Cons x a)
  then have np: "\<not> prefix p (x # a @ p)" and fa: "first_at a p"
    by (simp_all add: first_at_Cons)
  have "\<not> prefix p ((x # a @ p) @ b)"
    using np prefix_short [of p "x # a @ p" b] by auto
  then have "rmatch [Str p] (x # a @ p @ b) = None"
    using rmatch_literal_None [of p "x # a @ p @ b"] by simp
  then show ?case using Cons.IH [OF fa] by simp
qed

lemma tag_last: "tag = open_tag t \<or> tag = close_tag \<Longrightarrow> last tag = CHR ''>''"
  by (cases t) (auto simp: close_tag_def)

lemma tag_not_included:
  assumes "clean_phrase p" and "tag = open_tag t \<or> tag = close_tag"
  shows "\<not> str_includes tag p"
  using assms by (cases t) (auto simp: clean_phrase_def)

lemma no_start_in_tag:
  assumes c: "clean_phrase p" and tag: "tag = open_tag t \<or> tag = close_tag"
    and u: "suffix u tag" "u \<noteq> []"
  shows "\<not> prefix p (u @ z)"
proof
  assume "prefix p (u @ z)"
  then consider (inside) "prefix p u" | (beyond) w where "p = u @ w"
    by (auto simp: prefix_append)
  then show False
  proof cases
    case inside
    then obtain r where "u = p @ r" by (auto simp: prefix_def)
    moreover obtain v where "tag = v @ u" using u(1) by (auto simp: suffix_def)
    ultimately have "tag = v @ p @ r" by simp
    then have "str_includes tag p"
      using rsearch_literal_found [of p v r] by (simp add: str_includes_def)
    with tag_not_included [OF c tag] show False by simp
  next
    case beyond
    obtain v where v: "tag = v @ u" using u(1) by (auto simp: suffix_def)
    have "last u = last tag" using u(2) v by simp
    then have "last u = CHR ''>''" using tag_last [OF tag] by simp
    then have "CHR ''>'' \<in> set u" using u(2) last_in_set by metis
    then have "CHR ''>'' \<in> set p" using beyond by simp
    with c show False by (simp add: clean_phrase_def)
  qed
qed

lemma first_at_after_suffix:
  assumes c: "clean_phrase p" and tag: "tag = open_tag t \<or> tag = close_tag"
    and fa: "first_at M p" and u: "suffix u tag"
  shows "first_at (u @ M) p"
  using u
proof (induction u)
  case Nil
  show ?case using fa by simp
next
  case (Cons x u)
  have su: "suffix u tag" using Cons.prems by (rule suffix_ConsD)
  have "\<not> prefix p ((x # u) @ M @ p)"
    by (rule no_start_in_tag [OF c tag Cons.prems]) simp
  then show ?case using Cons.IH [OF su] by (simp add: first_at_Cons)
qed

lemma first_at_after_tag:
  assumes "clean_phrase p" and "tag = open_tag t \<or> tag = close_tag" and "first_at M p"
  shows "first_at (tag @ M) p"
  by (rule first_at_after_suffix [OF assms]) simp

lemma marks_first_at:
  assumes "marks M N" and c: "clean_phrase p" and "first_at N p"
  shows "first_at M p"
  using assms(1,3)
proof (induction rule: marks.induct)
  case marks_Nil
  then show ?case by simp
next
  case (marks_Cons M N x)
  then have np: "\<not> prefix p (x # N @ p)" and fa: "first_at N p"
    by (simp_all add: first_at_Cons)
  have lt: "CHR ''<'' \<notin> set p" using c by (simp add: clean_phrase_def)
  have "marks (x # M @ p) (x # N @ p)"
    by (intro marks.marks_Cons marks_append_same marks_Cons.hyps)
  then have "\<not> prefix p (x # M @ p)"
    using marks_prefix [OF _ lt] np by blast
  then show ?case using marks_Cons.IH [OF fa] by (simp add: first_at_Cons)
next
  case (marks_open M N t)
  show ?case
    by (rule first_at_after_tag [OF c _ marks_open.IH [OF marks_open.prems], where t = t]) simp
next
  case (marks_close M N)
  show ?case
    by (rule first_at_after_tag [OF c _ marks_close.IH [OF marks_close.prems], where t = Advancement])
       simp
qed

lemma mark_tail: "mark D A tail = mark D A [] @ tail"
  by (induction A) auto

lemma mark_append: "mark D (A @ B) tail = mark D A (mark D B tail)"
  by (induction A) auto

lemma marks_mark:
  assumes "marks M N"
  shows "marks (mark D A M) (mark (\<lambda>t. False) A N)"
proof (induction A)
  case Nil
  show ?case using assms by simp
next
  case (Cons seg A)
  obtain s p t where seg: "seg = (s, p, t)" by (cases seg)
  have body: "marks (p @ mark D A M) (p @ mark (\<lambda>t. False) A N)"
    by (rule marks_append [OF marks_refl Cons.IH])
  have "marks ((if D t then open_tag t @ p @ close_tag else p) @ mark D A M)
              (p @ mark (\<lambda>t. False) A N)"
  proof (cases "D t")
    case True
    have "marks (close_tag @ mark D A M) (mark (\<lambda>t. False) A N)"
      by (rule marks_close [OF Cons.IH])
    then have "marks (p @ close_tag @ mark D A M) (p @ mark (\<lambda>t. False) A N)"
      by (rule marks_append [OF marks_refl])
    then have "marks (open_tag t @ p @ close_tag @ mark D A M) (p @ mark (\<lambda>t. False) A N)"
      by (rule marks_open)
    then show ?thesis using True by simp
  next
    case False
    then show ?thesis using body by simp
  qed
  then have "marks (s @ (if D t then open_tag t @ p @ close_tag else p) @ mark D A M)
                   (s @ p @ mark (\<lambda>t. False) A N)"
    by (rule marks_append [OF marks_refl])
  then show ?case by (simp add: seg)
qed

lemma get_substitution_plain:
  "CHR ''$'' \<notin> set r \<Longrightarrow> get_substitution m b a r = r"
  by (induction m b a r rule: get_substitution.induct) auto

lemma open_tag_no_dollar: "CHR ''$'' \<notin> set (open_tag t)"
  by (cases t) auto

lemma wrap_first_occurrence:
  assumes c: "clean_phrase p" and fa: "first_at (plain_text A [] @ s) p"
  shows "str_replace p (open_tag t @ p @ close_tag) (mark D A (s @ p @ rest))
       = mark D A (s @ open_tag t @ p @ close_tag @ rest)"
proof -
  have "marks (mark D A s) (mark (\<lambda>t. False) A s)"
    by (rule marks_mark [OF marks_refl])
  then have "marks (mark D A [] @ s) (plain_text A [] @ s)"
    by (simp add: plain_text_def mark_tail [of _ A s])
  then have "first_at (mark D A [] @ s) p"
    using c fa by (rule marks_first_at)
  then have f: "rsearch [Str p] ((mark D A [] @ s) @ p @ rest) = Some (mark D A [] @ s, [p], rest)"
    by (rule first_at_search)
  have d: "CHR ''$'' \<notin> set (open_tag t @ p @ close_tag)"
    using c open_tag_no_dollar by (simp add: clean_phrase_def close_tag_def)
  have "str_replace p (open_tag t @ p @ close_tag) ((mark D A [] @ s) @ p @ rest)
      = (mark D A [] @ s) @ (open_tag t @ p @ close_tag) @ rest"
    by (simp only: str_replace_def f get_substitution_plain [OF d]) simp
  then show ?thesis
    by (simp add: mark_tail [of D A "s @ p @ rest"]
        mark_tail [of D A "s @ open_tag t @ p @ close_tag @ rest"])
qed


lemma plain_text_snoc: "plain_text (A @ [(s, p, t)]) [] = plain_text A [] @ s @ p"
  by (simp add: plain_text_def mark_append mark_tail [of _ A "s @ p"])

lemma inject_tier_Cons:
  "inject_tier t (p # ps) h = inject_tier t ps (str_replace p (open_tag t @ p @ close_tag) h)"
  by (simp add: inject_tier_def)

lemma phrases_of_Cons:
  "phrases_of t ((s, p, t') # B) = (if t' = t then p # phrases_of t B else phrases_of t B)"
  by (simp add: phrases_of_def)

lemma inject_tier_marks:
  assumes "\<not> D t" and "clean_segments B" and "first_occurrences (plain_text A []) B"
  shows "inject_tier t (phrases_of t B) (mark (D(t := True)) A (mark D B tail))
       = mark (D(t := True)) (A @ B) tail"
  using assms(2,3)
proof (induction B arbitrary: A)
  case Nil
  show ?case by (simp add: phrases_of_def inject_tier_def mark_append)
next
  case (Cons seg B)
  obtain s p t' where seg: "seg = (s, p, t')" by (cases seg)
  from Cons.prems seg have c: "clean_phrase p" and cb: "clean_segments B"
    and fa: "first_at (plain_text A [] @ s) p"
    and fo: "first_occurrences (plain_text (A @ [(s, p, t')]) []) B"
    by (simp_all add: plain_text_snoc)
  note IH = Cons.IH [OF cb fo]
  have app: "(A @ [(s, p, t')]) @ B = A @ (s, p, t') # B" by simp
  show ?case
    unfolding seg
  proof (cases "t' = t")
    case True
    have "inject_tier t (phrases_of t ((s, p, t') # B))
            (mark (D(t := True)) A (mark D ((s, p, t') # B) tail))
        = inject_tier t (phrases_of t B)
            (str_replace p (open_tag t @ p @ close_tag)
               (mark (D(t := True)) A (s @ p @ mark D B tail)))"
      using True assms(1) by (simp add: phrases_of_Cons inject_tier_Cons)
    also have "\<dots> = inject_tier t (phrases_of t B)
            (mark (D(t := True)) A (s @ open_tag t @ p @ close_tag @ mark D B tail))"
      by (simp only: wrap_first_occurrence [OF c fa])
    also have "\<dots> = inject_tier t (phrases_of t B)
            (mark (D(t := True)) (A @ [(s, p, t')]) (mark D B tail))"
      using True by (simp add: mark_append)
    also have "\<dots> = mark (D(t := True)) ((A @ [(s, p, t')]) @ B) tail"
      by (rule IH)
    finally show "inject_tier t (phrases_of t ((s, p, t') # B))
            (mark (D(t := True)) A (mark D ((s, p, t') # B) tail))
        = mark (D(t := True)) (A @ (s, p, t') # B) tail"
      by (simp only: app)
  next
    case False
    have "inject_tier t (phrases_of t ((s, p, t') # B))
            (mark (D(t := True)) A (mark D ((s, p, t') # B) tail))
        = inject_tier t (phrases_of t B)
            (mark (D(t := True)) (A @ [(s, p, t')]) (mark D B tail))"
      using False by (simp add: phrases_of_Cons mark_append)
    also have "\<dots> = mark (D(t := True)) ((A @ [(s, p, t')]) @ B) tail"
      by (rule IH)
    finally show "inject_tier t (phrases_of t ((s, p, t') # B))
            (mark (D(t := True)) A (mark D ((s, p, t') # B) tail))
        = mark (D(t := True)) (A @ (s, p, t') # B) tail"
      by (simp only: app)
  qed
qed

lemma inject_tier_all:
  assumes "\<not> D t" and "clean_segments segs" and "first_occurrences [] segs"
  shows "inject_tier t (phrases_of t segs) (mark D segs tail) = mark (D(t := True)) segs tail"
  using inject_tier_marks [of D t segs "[]" tail] assms by (simp add: plain_text_def)

lemma classify_marked:
  assumes "clean_segments segs" and "CHR ''<'' \<notin> set tail"
  shows "extract_tier t (mark (\<lambda>t. True) segs tail) = phrases_of t segs"
  using assms(1)
proof (induction segs)
  case Nil
  show ?case using assms(2) by (simp add: extract_tier_plain phrases_of_def)
next
  case (Cons seg segs)
  obtain s p t' where seg: "seg = (s, p, t')" by (cases seg)
  from Cons.prems seg have s: "CHR ''<'' \<notin> set s" and p: "CHR ''<'' \<notin> set p"
    and dot: "list_all (cls_ok Dot) p" and cs: "clean_segments segs"
    by (simp_all add: clean_phrase_def)
  have "extract_tier t (s @ open_tag t' @ p @ close_tag @ mark (\<lambda>t. True) segs tail)
      = (if t = t' then [p] else []) @ extract_tier t (mark (\<lambda>t. True) segs tail)"
    by (rule extract_tier_span [OF s p dot])
  then show ?case using Cons.IH [OF cs] by (auto simp: seg phrases_of_Cons)
qed

lemma all_tiers_done:
  "(\<lambda>t. False)(Advancement := True, SmallAlert := True, CriticalAlert := True) = (\<lambda>t. True)"
proof
  fix t show "((\<lambda>t. False)(Advancement := True, SmallAlert := True, CriticalAlert := True)) t = True"
    by (cases t) simp_all
qed

text \<open>
  Claim C2, amended. Let the text be without \<^verbatim>\<open><\<close>, and let the phrases of the alert
  set be located in it one after the other, without overlap, each at the first occurrence
  of that phrase in the text, the lists of the alert set giving the phrases of each tier
  in the order of the text; let the phrases contain no \<^verbatim>\<open><\<close>, \<^verbatim>\<open>>\<close>, \<^verbatim>\<open>$\<close> or line
  terminator and be no part of the text of a tag. Then classifying the text with the
  markup of the alert set injected gives the alert set again, in all three tiers.
\<close>

theorem classify_inject_located_phrases:
  assumes c: "clean_segments segs" and tl: "CHR ''<'' \<notin> set tail"
    and fo: "first_occurrences [] segs"
  shows "extractAlertsFromHtml
           (informationHtml \<lparr> information = plain_text segs tail, alerts = alerts_of segs \<rparr>)
         = alerts_of segs"
proof -
  let ?D0 = "\<lambda>t::tier. False"
  let ?D1 = "?D0(Advancement := True)"
  let ?D2 = "?D1(SmallAlert := True)"
  have 1: "inject_tier Advancement (phrases_of Advancement segs) (mark ?D0 segs tail)
         = mark ?D1 segs tail"
    by (rule inject_tier_all [OF _ c fo]) simp
  have 2: "inject_tier SmallAlert (phrases_of SmallAlert segs) (mark ?D1 segs tail)
         = mark ?D2 segs tail"
    by (rule inject_tier_all [OF _ c fo]) simp
  have 3: "inject_tier CriticalAlert (phrases_of CriticalAlert segs) (mark ?D2 segs tail)
         = mark (?D2(CriticalAlert := True)) segs tail"
    by (rule inject_tier_all [OF _ c fo]) simp
  have "informationHtml \<lparr> information = plain_text segs tail, alerts = alerts_of segs \<rparr>
      = mark (\<lambda>t. True) segs tail"
    by (simp only: informationHtml_def alerts_of_def plain_text_def project_info.simps
        alerts.simps 1 2 3 all_tiers_done)
  then show ?thesis
    by (simp add: extractAlertsFromHtml_def alerts_of_def classify_marked [OF c tl])
qed

theorem classify_inject_located_phrases_witness:
  "plain_text status_segments ''.''
     = ''Status: Delivery done. Risk: Budget overrun! Minor: Late docs and Tests pass.''
   \<and> alerts_of status_segments
     = \<lparr> advancements = [''Delivery done'', ''Tests pass''], small_alerts = [''Late docs''],
         critical_alerts = [''Budget overrun''] \<rparr>
   \<and> extractAlertsFromHtml
        (informationHtml \<lparr> information = plain_text status_segments ''.'',
                            alerts = alerts_of status_segments \<rparr>)
     = alerts_of status_segments"
proof -
  have 1: "clean_segments status_segments" by code_simp
  have 2: "CHR ''<'' \<notin> set ''.''" by simp
  have 3: "first_occurrences [] status_segments" by code_simp
  have 4: "plain_text status_segments ''.''
     = ''Status: Delivery done. Risk: Budget overrun! Minor: Late docs and Tests pass.''"
    by code_simp
  have 5: "alerts_of status_segments
     = \<lparr> advancements = [''Delivery done'', ''Tests pass''], small_alerts = [''Late docs''],
         critical_alerts = [''Budget overrun''] \<rparr>"
    by code_simp
  from classify_inject_located_phrases [OF 1 2 3] 4 5 show ?thesis by blast
qed

text \<open>
  Claim C2 as stated fails: the text \<open>Alpha Beta\<close> contains both phrases of the
  advancements \<open>[Beta, Alpha]\<close>, and classification after injection lists them in the
  order of the text, \<open>[Alpha, Beta]\<close>.
\<close>

theorem classify_inject_reorders:
  "str_includes (information swapped_info) ''Beta''
   \<and> str_includes (information swapped_info) ''Alpha''
   \<and> advancements (extractAlertsFromHtml (informationHtml swapped_info)) = [''Alpha'', ''Beta'']
   \<and> extractAlertsFromHtml (informationHtml swapped_info) \<noteq> alerts swapped_info"
  by code_simp

text \<open>A phrase that is part of a tag is replaced inside the markup injected before it:
  \<open>an\<close> is found in \<^verbatim>\<open><span\<close>, and the advancement \<open>ok\<close> is lost.\<close>

lemma inject_hits_markup:
  "extractAlertsFromHtml (informationHtml collision_info)
     = \<lparr> advancements = [], small_alerts = [''an''], critical_alerts = [] \<rparr>"
  by code_simp

section \<open>Remarks on the model\<close>

lemma greedy_until:
  assumes "q \<notin> set g"
  shows "rmatch [Greedy (Except q), Str [q]] (g @ q # u) = Some ([g, [q]], u)"
  using assms by (induction g) (auto simp: rmatch_last_Str)

lemma greedy_until_inv:
  assumes "rmatch [Greedy (Except q), Str [q]] s = Some (ps, u)"
  shows "\<exists>g. s = g @ q # u \<and> q \<notin> set g \<and> ps = [g, [q]]"
  using assms
proof (induction s arbitrary: ps)
  case Nil
  then show ?case by simp
next
  case (Cons x s)
  show ?case
  proof (cases "x = q")
    case True
    with Cons.prems have "s = u \<and> ps = [[], [q]]"
      by (auto simp: rmatch_last_Str split: if_splits)
    then show ?thesis using True by auto
  next
    case False
    have stop: "rmatch [Str [q]] (x # s) = None" using False by simp
    from Cons.prems False stop obtain m where m: "grow x (rmatch [Greedy (Except q), Str [q]] s) = Some m"
      and res: "m = (ps, u)"
      by (auto split: option.splits)
    have "\<exists>g0 rest. rmatch [Greedy (Except q), Str [q]] s = Some (g0 # rest, u) \<and> ps = (x # g0) # rest"
    proof (cases "rmatch [Greedy (Except q), Str [q]] s")
      case None
      with m show ?thesis by simp
    next
      case (Some r)
      obtain pl u' where r: "r = (pl, u')" by (cases r)
      show ?thesis using m res Some r by (cases pl) auto
    qed
    then obtain g0 rest where r: "rmatch [Greedy (Except q), Str [q]] s = Some (g0 # rest, u)"
      and ps: "ps = (x # g0) # rest"
      by blast
    from Cons.IH [OF r] obtain g where "s = g @ q # u" "q \<notin> set g" "g0 # rest = [g, [q]]"
      by blast
    then show ?thesis using False ps by (intro exI [of _ "x # g"]) auto
  qed
qed

lemma attr_match_inv:
  assumes "rmatch (attr_re name) b = Some (ps, u)"
  shows "\<exists>c g. CHR 0x22 \<notin> set (c # g) \<and> ps = [name @ [CHR ''='', CHR 0x22], [c], g, [CHR 0x22]]"
proof -
  from assms obtain t ps1 where t: "strip_prefix (name @ [CHR ''='', CHR 0x22]) b = Some t"
    and r1: "rmatch [One (Except CHR 0x22), Greedy (Except CHR 0x22), Str [CHR 0x22]] t = Some (ps1, u)"
    and ps: "ps = (name @ [CHR ''='', CHR 0x22]) # ps1"
    by (auto simp: attr_re_def split: option.splits)
  from r1 obtain c s ps2 where tc: "t = c # s" and c: "c \<noteq> CHR 0x22"
    and r2: "rmatch [Greedy (Except CHR 0x22), Str [CHR 0x22]] s = Some (ps2, u)"
    and ps1: "ps1 = [c] # ps2"
    by (cases t) (auto split: if_splits)
  from greedy_until_inv [OF r2] obtain g where "CHR 0x22 \<notin> set g" "ps2 = [g, [CHR 0x22]]"
    by blast
  then show ?thesis using c ps ps1 by auto
qed

lemma attr_match_again:
  assumes "CHR 0x22 \<notin> set (c # g)"
  shows "rmatch (attr_re name) (concat [name @ [CHR ''='', CHR 0x22], [c], g, [CHR 0x22]])
       = Some ([name @ [CHR ''='', CHR 0x22], [c], g, [CHR 0x22]], [])"
proof -
  have g: "rmatch [Greedy (Except CHR 0x22), Str [CHR 0x22]] (g @ CHR 0x22 # []) = Some ([g, [CHR 0x22]], [])"
    using assms by (intro greedy_until) simp
  have c: "cls_ok (Except CHR 0x22) c" using assms by auto
  have one: "rmatch [One (Except CHR 0x22), Greedy (Except CHR 0x22), Str [CHR 0x22]] (c # g @ CHR 0x22 # [])
           = Some ([[c], g, [CHR 0x22]], [])"
    by (simp only: rmatch.simps(4) g c) simp
  have "rmatch (attr_re name) ((name @ [CHR ''='', CHR 0x22]) @ c # g @ CHR 0x22 # [])
      = Some ([name @ [CHR ''='', CHR 0x22], [c], g, [CHR 0x22]], [])"
    unfolding attr_re_def by (simp only: rmatch_Str_append one) simp
  then show ?thesis by simp
qed

lemma match_all_from_elem:
  "m \<in> set (match_all_from re k s) \<Longrightarrow> \<exists>b ps u. rmatch re b = Some (ps, u) \<and> m = concat ps"
proof (induction s arbitrary: k)
  case Nil
  show ?case
  proof (cases "rmatch re []")
    case None
    with Nil.prems have False by (cases "k = 0") simp_all
    then show ?thesis ..
  next
    case (Some r)
    obtain ps u where r: "r = (ps, u)" by (cases r)
    from Nil.prems Some r have "m = concat ps" by (cases "k = 0") simp_all
    then show ?thesis using Some r by blast
  qed
next
  case (Cons x s)
  show ?case
  proof (cases "0 < k")
    case True
    with Cons.prems have "m \<in> set (match_all_from re (k - 1) s)" by simp
    then show ?thesis by (rule Cons.IH)
  next
    case False
    show ?thesis
    proof (cases "rmatch re (x # s)")
      case None
      with Cons.prems False have "m \<in> set (match_all_from re 0 s)" by simp
      then show ?thesis by (rule Cons.IH)
    next
      case (Some r)
      obtain ps u where r: "r = (ps, u)" by (cases r)
      from Cons.prems False Some r
      consider "m = concat ps" | "m \<in> set (match_all_from re (length (concat ps) - 1) s)"
        by auto
      then show ?thesis
      proof cases
        case 1
        then show ?thesis using Some r by blast
      next
        case 2
        then show ?thesis by (rule Cons.IH)
      qed
    qed
  qed
qed

lemma rsearch_at_start:
  assumes "rmatch re s = Some (ps, u)"
  shows "rsearch re s = Some ([], ps, u)"
  using assms by (cases s) auto

text \<open>The second match of a matched \<^verbatim>\<open>gridSpan\<close> attribute always succeeds.\<close>

lemma span_rematch:
  assumes "span \<in> set (match_all (attr_re name) rowMatch)"
  shows "capture (attr_re name) 1 2 span \<noteq> None"
proof -
  from assms obtain b ps u where m: "rmatch (attr_re name) b = Some (ps, u)" and s: "span = concat ps"
    unfolding match_all_def using match_all_from_elem by blast
  from attr_match_inv [OF m] obtain c g where cg: "CHR 0x22 \<notin> set (c # g)"
    and ps: "ps = [name @ [CHR ''='', CHR 0x22], [c], g, [CHR 0x22]]"
    by blast
  have "rsearch (attr_re name) span = Some ([], ps, [])"
    unfolding s ps by (rule rsearch_at_start [OF attr_match_again [OF cg]])
  then show ?thesis by (simp add: capture_def)
qed

text \<open>A cell edit whose slide index does not resolve reads a property of
  \<^verbatim>\<open>undefined\<close>: the handler throws before the state is written.\<close>

lemma slide_index_unresolved:
  assumes "data_element_type ev = Some ''table''" and "data_slide_index ev = Some n" and "n \<noteq> 0"
    and "data_element_index ev \<noteq> None"
    and "js_nth (presentations st) (Some (int (currentPresIndex st))) = Some p"
  shows "handleStructuredContentEdit st ev = Inl TypeError"
proof -
  have 1: "js_nth (convertProjectDataToSlides (project_data p)) (Some n) = None"
    using assms(3) by (auto simp: js_nth_def js_index_def convertProjectDataToSlides_def)
  have 2: "str_includes ''table'' ''table''" by code_simp
  show ?thesis
    using assms 1 2 by (simp add: handleStructuredContentEdit_def Let_def)
qed

text \<open>
  Every edit of a project-name cell (cell 0 of a data row) reads the name back from the
  cell it has just written: the rename is a rename from the new name to the new name,
  which leaves every lookup in the activities as it was.
\<close>

lemma map_of_obj_delete: "map_of (obj_delete k ob) = (map_of ob)(k := None)"
  by (induction ob) (auto simp: obj_delete_def)

lemma rename_same_name:
  assumes "b \<noteq> ''__proto__''"
  shows "map_of (rename_project b b acts) = map_of acts"
proof (cases "map_of acts b")
  case None
  then show ?thesis by (simp add: rename_project_def obj_get_def)
next
  case (Some info)
  then show ?thesis
    by (auto simp: rename_project_def obj_get_def map_of_obj_set [OF assms] map_of_obj_delete)
qed

lemma name_cell_edit_reads_new_text:
  assumes r: "js_index (rows tbl) rowIndex = Some r" and c: "0 < length (rows tbl ! r)"
    and nh: "rowIndex \<noteq> Some 0"
  shows "edit_table_cell pd tbl rowIndex (Some 0) updatedContent
       = Some (Inr (pd\<lparr> activities := rename_project updatedContent updatedContent (activities pd) \<rparr>))"
proof -
  from r obtain n where n: "rowIndex = Some n" "0 \<le> n" "nat n < length (rows tbl)" "r = nat n"
    by (auto simp: js_index_def split: option.splits if_splits)
  have i0: "js_index (rows tbl ! r) (Some 0) = Some 0" using c by (simp add: js_index_def)
  let ?rows = "set_cell_text (rows tbl) r 0 updatedContent"
  have len: "nat n < length ?rows" using n by (simp add: set_cell_text_def)
  have row: "?rows ! r = (rows tbl ! r)[0 := (rows tbl ! r ! 0)\<lparr> text' := updatedContent \<rparr>]"
    using n by (simp add: set_cell_text_def)
  have 1: "js_nth ?rows rowIndex = Some (?rows ! r)"
    using n len by (simp add: js_nth_def js_index_def)
  have 2: "js_nth (?rows ! r) (Some 0) = Some ((rows tbl ! r ! 0)\<lparr> text' := updatedContent \<rparr>)"
    using c by (simp add: row js_nth_def js_index_def)
  show ?thesis
    using nh by (simp add: edit_table_cell_def r i0 1 2 Let_def)
qed

end
